theory Spec2Isabelle
  imports Main "HOL-Library.Word"
begin

section \<open>JavaScript strings and values\<close>

text \<open>
  A JavaScript string is a sequence of 16-bit code units; \<open>length\<close>, \<open>slice\<close> and the
  regular expressions of the route handler all work on code units. String literals of the
  source are written with \<open>js\<close>, which maps every character of an ASCII literal to its code
  unit.
\<close>

type_synonym code_unit = "16 word"
type_synonym jsstring = "code_unit list"

definition js :: "string \<Rightarrow> jsstring" where
  "js s = map of_char s"

text \<open>The bytes of the response stream, and the bytes of an ASCII literal.\<close>

type_synonym byte = "8 word"

definition bytes :: "string \<Rightarrow> byte list" where
  "bytes s = map of_char s"

definition quote :: code_unit where
  "quote = 0x22"

definition newline :: code_unit where
  "newline = 0x0A"

definition backslash :: code_unit where
  "backslash = 0x5C"

definition letter_n :: code_unit where
  "letter_n = 0x6E"

text \<open>\<open>!text\<close> on a string: only the empty string is falsy.\<close>

definition truthy :: "jsstring \<Rightarrow> bool" where
  "truthy s \<longleftrightarrow> s \<noteq> []"

text \<open>An environment variable is absent (\<open>undefined\<close>) or a string; both \<open>undefined\<close>
  and the empty string are falsy.\<close>

definition env_truthy :: "jsstring option \<Rightarrow> bool" where
  "env_truthy v = (case v of None \<Rightarrow> False | Some s \<Rightarrow> truthy s)"

text \<open>\<open>s.replace(/c/g, r)\<close> for a one-character pattern: every occurrence of \<open>c\<close>, left
  to right, is replaced by \<open>r\<close>.\<close>

definition replace_all :: "code_unit \<Rightarrow> jsstring \<Rightarrow> jsstring \<Rightarrow> jsstring" where
  "replace_all c r s = concat (map (\<lambda>x. if x = c then r else [x]) s)"

text \<open>\<open>s.slice(a, b)\<close> for \<open>0 \<le> a \<le> b\<close>; both ends are clamped to the length of \<open>s\<close>.\<close>

definition slice_js :: "jsstring \<Rightarrow> nat \<Rightarrow> nat \<Rightarrow> jsstring" where
  "slice_js s a b = take (b - a) (drop a s)"

text \<open>\<open>String.prototype.trim\<close> removes the WhiteSpace and LineTerminator code points of
  ECMAScript from both ends; all of them are single code units.\<close>

definition is_whitespace :: "code_unit \<Rightarrow> bool" where
  "is_whitespace c \<longleftrightarrow>
     c \<in> set [0x09, 0x0A, 0x0B, 0x0C, 0x0D, 0x20, 0xA0, 0x1680, 0x2028, 0x2029,
               0x202F, 0x205F, 0x3000, 0xFEFF]
     \<or> (0x2000 \<le> c \<and> c \<le> 0x200A)"

definition trim :: "jsstring \<Rightarrow> jsstring" where
  "trim s = rev (dropWhile is_whitespace (rev (dropWhile is_whitespace s)))"

text \<open>\<open>parts.join(sep)\<close>.\<close>

fun join :: "jsstring list \<Rightarrow> jsstring \<Rightarrow> jsstring" where
  "join [] sep = []"
| "join [x] sep = x"
| "join (x # y # ys) sep = x @ sep @ join (y # ys) sep"

text \<open>
  Dynamically typed values, as they come out of \<open>req.json()\<close> and out of the embedding
  service. Numbers are never computed with, so their type is a parameter. An object is the
  list of its own enumerable properties in property-enumeration order.
\<close>

datatype 'n jsval =
    JUndefined
  | JNull
  | JBool bool
  | JNum 'n
  | JStr jsstring
  | JArr "'n jsval list"
  | JObj "(jsstring \<times> 'n jsval) list"

text \<open>\<open>typeof v === 'number'\<close>, \<open>Array.isArray(v)\<close>.\<close>

fun is_number :: "'n jsval \<Rightarrow> bool" where
  "is_number (JNum _) = True"
| "is_number _ = False"

fun isArray :: "'n jsval \<Rightarrow> bool" where
  "isArray (JArr _) = True"
| "isArray _ = False"

text \<open>A thrown exception, with its message.\<close>

datatype error = Error jsstring

section \<open>Data model of the route handler\<close>

datatype role = System | User | Assistant

text \<open>The interface \<open>ChatMessage\<close> declares \<open>content: string\<close>, but the handler tests
  \<open>typeof msg.content\<close> at run time, so the content of a received message is any value.
  The messages sent on to the generation providers have the content the handler computed
  for them: a string, or \<open>undefined\<close> (\<open>None\<close>).\<close>

record 'c message =
  role :: role
  content :: 'c

type_synonym 'n ChatMessage = "'n jsval message"
type_synonym ProviderMessage = "jsstring option message"

text \<open>A document of the vector store, as \<open>loadDb.ts\<close> inserts it; only its text is read.\<close>

record ContextDocument =
  doc_text :: jsstring

text \<open>The parsed request: \<open>req.json()\<close> throws, or the body has no \<open>messages\<close> property,
  or \<open>messages\<close> is an array of messages.\<close>

datatype 'n request =
    NotJson error
  | NoMessages
  | Messages "'n ChatMessage list"

text \<open>What the Groq endpoint answers to the one \<open>fetch\<close>: the request (or reading the
  body) throws, the status is not 2xx, or the body parses and
  \<open>json?.choices?.[0]?.message?.content\<close> is a string or nullish (\<open>None\<close>).\<close>

datatype groq_response =
    GroqThrows error
  | GroqNotOk nat
  | GroqOk "jsstring option"

text \<open>What \<open>hf.textGeneration\<close> and \<open>hf.textToText\<close> resolve to: a string, or a value whose
  \<open>generated_text\<close> and \<open>[0].generated_text\<close> are each a string or nullish.\<close>

datatype hf_result =
    HfString jsstring
  | HfValue "jsstring option" "jsstring option"

text \<open>
  Everything outside the handler: the two credentials, the answers of the collaborators,
  and the two library functions applied to received values (\<open>toString\<close> throws a TypeError
  on an object whose \<open>toString\<close> property is not callable). The collaborators are asked at
  most once per argument in one request, so a function of the arguments describes them.
\<close>

record 'n world =
  HF_TOKEN :: "jsstring option"
  GROQ_API_KEY :: "jsstring option"
  featureExtraction :: "jsstring \<Rightarrow> jsstring \<Rightarrow> error + 'n jsval"
  collection_find :: "'n jsval list \<Rightarrow> nat \<Rightarrow> error + ContextDocument list"
  groq_fetch :: "ProviderMessage list \<Rightarrow> groq_response"
  textGeneration :: "jsstring \<Rightarrow> jsstring \<Rightarrow> error + hf_result"
  textToText :: "jsstring \<Rightarrow> jsstring \<Rightarrow> error + hf_result"
  toString :: "'n jsval \<Rightarrow> error + jsstring"
  JSON_stringify :: "'n jsval \<Rightarrow> jsstring"

text \<open>The calls to collaborators, recorded in the order they are made.\<close>

datatype 'n call =
    CallFeatureExtraction jsstring jsstring
  | CallCollectionFind "'n jsval list" nat
  | CallGroq "ProviderMessage list"
  | CallTextGeneration jsstring jsstring
  | CallTextToText jsstring jsstring

text \<open>The controller of the response stream: the chunks enqueued so far, each the bytes
  \<open>encoder.encode\<close> made of a string, and whether the stream has been closed.\<close>

record ReadableStreamDefaultController =
  queue :: "byte list list"
  is_closed :: bool

definition new_controller :: ReadableStreamDefaultController where
  "new_controller = \<lparr>queue = [], is_closed = False\<rparr>"

definition enqueue ::
  "ReadableStreamDefaultController \<Rightarrow> byte list \<Rightarrow> ReadableStreamDefaultController" where
  "enqueue c chunk = c\<lparr>queue := queue c @ [chunk]\<rparr>"

definition close :: "ReadableStreamDefaultController \<Rightarrow> ReadableStreamDefaultController" where
  "close c = c\<lparr>is_closed := True\<rparr>"

datatype response_body =
    Json jsstring
  | Stream ReadableStreamDefaultController

record Response =
  status :: nat
  headers :: "(jsstring \<times> jsstring) list"
  body :: response_body

section \<open>getHuggingFaceEmbedding\<close>

text \<open>The three cases and the fallback on the value the service returned.
  \<open>Object.values\<close> of an array is the list of its elements.\<close>

fun embedding_of_response :: "'n jsval \<Rightarrow> 'n jsval list" where
  "embedding_of_response (JArr response) =
     (if length response > 0 \<and> is_number (hd response) then response
      else if length response > 0 \<and> isArray (hd response)
        then (case hd response of JArr first \<Rightarrow> first | _ \<Rightarrow> [])
      else response)"
| "embedding_of_response (JObj props) = map snd props"
| "embedding_of_response _ = []"

definition getHuggingFaceEmbedding ::
  "'n world \<Rightarrow> jsstring \<Rightarrow> (error + 'n jsval list) \<times> 'n call list" where
  "getHuggingFaceEmbedding w text =
     (let model = js ''BAAI/bge-small-en-v1.5'' in
      (case featureExtraction w model text of
         Inl e \<Rightarrow> Inl e
       | Inr response \<Rightarrow> Inr (embedding_of_response response),
       [CallFeatureExtraction model text]))"

section \<open>TextEncoder\<close>

text \<open>
  \<open>encoder.encode(s)\<close> gives the UTF-8 bytes of the string: a high surrogate followed by a
  low surrogate is one code point of four bytes, a surrogate that stands alone is written
  as U+FFFD (the bytes EF BF BD), and every other code unit is the code point of one, two
  or three bytes.
\<close>

definition is_high_surrogate :: "code_unit \<Rightarrow> bool" where
  "is_high_surrogate u \<longleftrightarrow> 0xD800 \<le> u \<and> u \<le> 0xDBFF"

definition is_low_surrogate :: "code_unit \<Rightarrow> bool" where
  "is_low_surrogate u \<longleftrightarrow> 0xDC00 \<le> u \<and> u \<le> 0xDFFF"

definition utf8 :: "nat \<Rightarrow> byte list" where
  "utf8 cp =
     (if cp < 0x80 then [of_nat cp]
      else if cp < 0x800 then [of_nat (0xC0 + cp div 0x40), of_nat (0x80 + cp mod 0x40)]
      else if cp < 0x10000
        then [of_nat (0xE0 + cp div 0x1000), of_nat (0x80 + cp div 0x40 mod 0x40),
              of_nat (0x80 + cp mod 0x40)]
      else [of_nat (0xF0 + cp div 0x40000), of_nat (0x80 + cp div 0x1000 mod 0x40),
            of_nat (0x80 + cp div 0x40 mod 0x40), of_nat (0x80 + cp mod 0x40)])"

definition replacement :: "byte list" where
  "replacement = [0xEF, 0xBF, 0xBD]"

fun encode :: "jsstring \<Rightarrow> byte list" where
  "encode [] = []"
| "encode [u] =
     (if is_high_surrogate u \<or> is_low_surrogate u then replacement else utf8 (unat u))"
| "encode (u # v # rest) =
     (if is_high_surrogate u \<and> is_low_surrogate v
      then utf8 (0x10000 + (unat u - 0xD800) * 0x400 + (unat v - 0xDC00)) @ encode rest
      else if is_high_surrogate u \<or> is_low_surrogate u
      then replacement @ encode (v # rest)
      else utf8 (unat u) @ encode (v # rest))"

section \<open>streamText and emit\<close>

definition chunkSize :: nat where
  "chunkSize = 40"

function streamText_loop ::
  "ReadableStreamDefaultController \<Rightarrow> jsstring \<Rightarrow>
   (ReadableStreamDefaultController \<Rightarrow> jsstring \<Rightarrow> ReadableStreamDefaultController) \<Rightarrow>
   nat \<Rightarrow> ReadableStreamDefaultController" where
  "streamText_loop controller text emit i =
     (if i < length text
      then streamText_loop (emit controller (slice_js text i (i + chunkSize))) text emit
             (i + chunkSize)
      else controller)"
  by pat_completeness auto
termination
  by (relation "measure (\<lambda>(controller, text, emit, i). length text - i)")
     (auto simp: chunkSize_def)

declare streamText_loop.simps [simp del]

definition streamText ::
  "ReadableStreamDefaultController \<Rightarrow> jsstring \<Rightarrow>
   (ReadableStreamDefaultController \<Rightarrow> jsstring \<Rightarrow> ReadableStreamDefaultController) \<Rightarrow>
   ReadableStreamDefaultController" where
  "streamText controller text emit =
     (if \<not> truthy text then controller else streamText_loop controller text emit 0)"

definition escape :: "jsstring \<Rightarrow> jsstring" where
  "escape text =
     replace_all newline [backslash, letter_n] (replace_all quote [backslash, quote] text)"

definition formatted :: "jsstring \<Rightarrow> jsstring" where
  "formatted text = js ''0:'' @ [quote] @ escape text @ [quote] @ [newline]"

definition emit ::
  "ReadableStreamDefaultController \<Rightarrow> jsstring \<Rightarrow> ReadableStreamDefaultController" where
  "emit controller text =
     (if \<not> truthy text then controller
      else enqueue controller (encode (formatted text)))"

section \<open>generateWithGroq and generateWithHF\<close>

definition generateWithGroq ::
  "'n world \<Rightarrow> ProviderMessage list \<Rightarrow> jsstring \<times> 'n call list" where
  "generateWithGroq w messages =
     (if \<not> env_truthy (GROQ_API_KEY w) then ([], [])
      else
        (let sent = map (\<lambda>m. \<lparr>role = role m, content = content m\<rparr>) messages in
         (case groq_fetch w sent of
            GroqThrows e \<Rightarrow> []
          | GroqNotOk st \<Rightarrow> []
          | GroqOk c \<Rightarrow> (case c of None \<Rightarrow> [] | Some s \<Rightarrow> s),
          [CallGroq sent])))"

text \<open>\<open>typeof result === 'string' ? result
        : (result?.generated_text ?? result?.[0]?.generated_text ?? '')\<close>\<close>

fun generated_text :: "hf_result \<Rightarrow> jsstring" where
  "generated_text (HfString result) = result"
| "generated_text (HfValue (Some t) _) = t"
| "generated_text (HfValue None (Some t)) = t"
| "generated_text (HfValue None None) = []"

text \<open>The two \<open>for\<close> loops. \<open>Some text\<close> is the \<open>return text\<close> inside the loop, \<open>None\<close> is
  the loop running to its end. An exception of the call is caught and the loop continues
  with the next model, as it does after an empty text.\<close>

fun textGen_loop ::
  "'n world \<Rightarrow> jsstring \<Rightarrow> jsstring list \<Rightarrow> jsstring option \<times> 'n call list" where
  "textGen_loop w prompt [] = (None, [])"
| "textGen_loop w prompt (model # models) =
     (let here = CallTextGeneration model prompt in
      case textGeneration w model prompt of
        Inl e \<Rightarrow>
          (case textGen_loop w prompt models of (r, calls) \<Rightarrow> (r, here # calls))
      | Inr result \<Rightarrow>
          (let text = generated_text result in
           if truthy text then (Some text, [here])
           else (case textGen_loop w prompt models of (r, calls) \<Rightarrow> (r, here # calls))))"

fun t5_loop ::
  "'n world \<Rightarrow> jsstring \<Rightarrow> jsstring list \<Rightarrow> jsstring option \<times> 'n call list" where
  "t5_loop w prompt [] = (None, [])"
| "t5_loop w prompt (model # models) =
     (let here = CallTextToText model prompt in
      case textToText w model prompt of
        Inl e \<Rightarrow>
          (case t5_loop w prompt models of (r, calls) \<Rightarrow> (r, here # calls))
      | Inr result \<Rightarrow>
          (let text = generated_text result in
           if truthy text then (Some text, [here])
           else (case t5_loop w prompt models of (r, calls) \<Rightarrow> (r, here # calls))))"

definition textGenModels :: "jsstring list" where
  "textGenModels = [js ''bigscience/bloom-560m'', js ''gpt2'', js ''distilgpt2'']"

definition t5Models :: "jsstring list" where
  "t5Models = [js ''google/flan-t5-base'', js ''google/flan-t5-small'']"

definition generateWithHF :: "'n world \<Rightarrow> jsstring \<Rightarrow> jsstring \<times> 'n call list" where
  "generateWithHF w prompt =
     (case textGen_loop w prompt textGenModels of
        (Some text, calls) \<Rightarrow> (text, calls)
      | (None, calls) \<Rightarrow>
          (case t5_loop w prompt t5Models of
             (Some text, calls') \<Rightarrow> (text, calls @ calls')
           | (None, calls') \<Rightarrow> ([], calls @ calls')))"

section \<open>The POST handler\<close>

text \<open>\<open>messages?.[messages.length - 1]?.content?.toString().trim()\<close>: \<open>undefined\<close> (\<open>None\<close>)
  when there is no last message or its content is nullish; \<open>toString\<close> of a string is the
  string itself.\<close>

definition latestMessage :: "'n world \<Rightarrow> 'n request \<Rightarrow> error + jsstring option" where
  "latestMessage w req =
     (case req of
        NotJson e \<Rightarrow> Inl e
      | NoMessages \<Rightarrow> Inr None
      | Messages messages \<Rightarrow>
          (if messages = [] then Inr None
           else (case content (last messages) of
                   JUndefined \<Rightarrow> Inr None
                 | JNull \<Rightarrow> Inr None
                 | JStr s \<Rightarrow> Inr (Some (trim s))
                 | v \<Rightarrow> (case toString w v of
                           Inl e \<Rightarrow> Inl e
                         | Inr s \<Rightarrow> Inr (Some (trim s))))))"

fun messages_of :: "'n request \<Rightarrow> 'n ChatMessage list" where
  "messages_of (Messages messages) = messages"
| "messages_of _ = []"

text \<open>Lines 155 to 161: the embedding of the question; an exception of the embedding
  call is caught here and gives the empty vector.\<close>

definition embedding_step :: "'n world \<Rightarrow> jsstring \<Rightarrow> 'n jsval list \<times> 'n call list" where
  "embedding_step w latest =
     (case getHuggingFaceEmbedding w latest of
        (Inl e, calls) \<Rightarrow> ([], calls)
      | (Inr embedding, calls) \<Rightarrow> (embedding, calls))"

text \<open>Lines 163 to 182: the similarity search, only with a non-empty embedding;
  \<open>db.collection\<close> only builds a handle, the query is \<open>find\<close> with \<open>toArray\<close>.\<close>

definition retrieval_step :: "'n world \<Rightarrow> 'n jsval list \<Rightarrow> jsstring \<times> 'n call list" where
  "retrieval_step w embedding =
     (if length embedding \<noteq> 0
      then (case collection_find w embedding 10 of
              Inl e \<Rightarrow> []
            | Inr documents \<Rightarrow>
                (let docsMap = map doc_text documents
                 in JSON_stringify w (JArr (map JStr docsMap))),
            [CallCollectionFind embedding 10])
      else ([], []))"

definition persona :: jsstring where
  "persona = js (''You are an AI assistant who knows everything about Formula One. ''
     @ ''Use the below context to augment what you know about Formula One racing. ''
     @ ''The context will provide you with the most recent page data from wikipedia, ''
     @ ''the official F1 website and others. ''
     @ ''If the context doesn't include the information you need answer based on your ''
     @ ''existing knowledge and don't mention the source of your information or what the ''
     @ ''context does or doesn't include. ''
     @ ''Format responses using markdown where applicable and don't return images.'')"

definition systemPrompt :: "jsstring \<Rightarrow> jsstring \<Rightarrow> jsstring" where
  "systemPrompt docContext latest =
     persona @ [newline]
     @ js ''    ---------'' @ [newline]
     @ js ''    START CONTEXT'' @ [newline]
     @ js ''    '' @ docContext @ [newline]
     @ js ''    END CONTEXT'' @ [newline]
     @ js ''    ---------'' @ [newline]
     @ js ''    QUESTION: '' @ latest @ [newline]
     @ js ''    ---------'' @ [newline]
     @ js ''    ''"

text \<open>\<open>typeof msg.content === 'string' ? msg.content : JSON.stringify(msg.content)\<close>;
  \<open>JSON.stringify(undefined)\<close> is \<open>undefined\<close>.\<close>

definition coerce_content :: "'n world \<Rightarrow> 'n jsval \<Rightarrow> jsstring option" where
  "coerce_content w c =
     (case c of
        JStr s \<Rightarrow> Some s
      | JUndefined \<Rightarrow> None
      | v \<Rightarrow> Some (JSON_stringify w v))"

definition groqMessages ::
  "'n world \<Rightarrow> jsstring \<Rightarrow> 'n ChatMessage list \<Rightarrow> ProviderMessage list" where
  "groqMessages w sysPrompt messages =
     \<lparr>role = System, content = Some sysPrompt\<rparr>
     # map (\<lambda>msg. \<lparr>role = role msg, content = coerce_content w (content msg)\<rparr>) messages"

fun role_string :: "role \<Rightarrow> jsstring" where
  "role_string System = js ''system''"
| "role_string User = js ''user''"
| "role_string Assistant = js ''assistant''"

text \<open>The template literal \<open>`${m.role}: ${m.content}`\<close>; \<open>undefined\<close> prints as
  \<open>undefined\<close>.\<close>

definition prompt_line :: "ProviderMessage \<Rightarrow> jsstring" where
  "prompt_line m =
     role_string (role m) @ js '': ''
     @ (case content m of None \<Rightarrow> js ''undefined'' | Some s \<Rightarrow> s)"

definition build_prompt :: "ProviderMessage list \<Rightarrow> jsstring" where
  "build_prompt msgs = join (map prompt_line msgs) [newline] @ [newline] @ js ''assistant:''"

definition apology :: jsstring where
  "apology = js ''I couldn't generate a response right now. Please try again.''"

text \<open>\<open>start(controller)\<close> of the response stream, in its two parts: the text of the tiers
  (Groq first if the key is present, then the Hugging Face fallback if the text is still
  empty and the token present), and the framing of that text. Nothing inside the \<open>try\<close>
  throws in this model (both generators catch their own exceptions), so the \<open>catch\<close>
  branch, which emits the same apology and closes, is not reached.\<close>

definition generate ::
  "'n world \<Rightarrow> ProviderMessage list \<Rightarrow> jsstring \<Rightarrow> jsstring \<times> 'n call list" where
  "generate w msgs prompt =
     (case (if env_truthy (GROQ_API_KEY w) then generateWithGroq w msgs else ([], [])) of
        (text1, calls1) \<Rightarrow>
          (if \<not> truthy text1 \<and> env_truthy (HF_TOKEN w)
           then (case generateWithHF w prompt of (text2, calls2) \<Rightarrow> (text2, calls1 @ calls2))
           else (text1, calls1)))"

definition start ::
  "'n world \<Rightarrow> ProviderMessage list \<Rightarrow> jsstring \<Rightarrow> ReadableStreamDefaultController \<Rightarrow>
   ReadableStreamDefaultController \<times> 'n call list" where
  "start w msgs prompt controller =
     (case generate w msgs prompt of
        (text, calls) \<Rightarrow>
          (close (if \<not> truthy text then emit controller apology
                  else streamText controller text emit),
           calls))"

definition json_response :: "nat \<Rightarrow> jsstring \<Rightarrow> Response" where
  "json_response st text =
     \<lparr>status = st, headers = [(js ''Content-Type'', js ''application/json'')],
      body = Json text\<rparr>"

definition no_user_message :: Response where
  "no_user_message =
     json_response 400
       (js ''{'' @ [quote] @ js ''error'' @ [quote] @ js '':'' @ [quote]
        @ js ''No user message provided.'' @ [quote] @ js ''}'')"

definition missing_hf_token :: Response where
  "missing_hf_token =
     json_response 400
       (js ''{'' @ [quote] @ js ''error'' @ [quote] @ js '':'' @ [quote]
        @ js ''Missing HF_TOKEN in environment.'' @ [quote] @ js ''}'')"

definition internal_server_error :: Response where
  "internal_server_error =
     json_response 500
       (js ''{'' @ [quote] @ js ''error'' @ [quote] @ js '':'' @ [quote]
        @ js ''Internal server error'' @ [quote] @ js ''}'')"

definition stream_response :: "ReadableStreamDefaultController \<Rightarrow> Response" where
  "stream_response controller =
     \<lparr>status = 200,
      headers = [(js ''Content-Type'', js ''text/plain; charset=utf-8''),
                 (js ''Cache-Control'', js ''no-cache''),
                 (js ''Connection'', js ''keep-alive'')],
      body = Stream controller\<rparr>"

text \<open>The handler: the response, and the calls made to collaborators, in order. Any
  exception outside the inner \<open>try\<close> blocks reaches the outer \<open>catch\<close> and gives the 500
  response.\<close>

definition POST :: "'n world \<Rightarrow> 'n request \<Rightarrow> Response \<times> 'n call list" where
  "POST w req =
     (case latestMessage w req of
        Inl e \<Rightarrow> (internal_server_error, [])
      | Inr None \<Rightarrow> (no_user_message, [])
      | Inr (Some latest) \<Rightarrow>
          (if \<not> truthy latest then (no_user_message, [])
           else
             (case embedding_step w latest of
                (embedding, calls1) \<Rightarrow>
                  (case retrieval_step w embedding of
                     (docContext, calls2) \<Rightarrow>
                       (let msgs = groqMessages w (systemPrompt docContext latest)
                                     (messages_of req)
                        in if \<not> env_truthy (HF_TOKEN w)
                           then (missing_hf_token, calls1 @ calls2)
                           else
                             (case start w msgs (build_prompt msgs) new_controller of
                                (controller, calls3) \<Rightarrow>
                                  (stream_response controller,
                                   calls1 @ calls2 @ calls3)))))))"

section \<open>Notions the properties are stated with\<close>

text \<open>The frames a response carries: the chunks of its stream, in the order they were
  enqueued; a JSON response carries none.\<close>

definition frames :: "Response \<Rightarrow> byte list list" where
  "frames r = (case body r of Json text \<Rightarrow> [] | Stream controller \<Rightarrow> queue controller)"

text \<open>The escaping of one code unit, and the \<open>k\<close>-th slice of a text.\<close>

definition escape_unit :: "code_unit \<Rightarrow> jsstring" where
  "escape_unit x =
     (if x = quote then [backslash, quote]
      else if x = newline then [backslash, letter_n]
      else [x])"

definition nth_slice :: "jsstring \<Rightarrow> nat \<Rightarrow> jsstring" where
  "nth_slice text k = slice_js text (chunkSize * k) (chunkSize * k + chunkSize)"

definition slice_count :: "jsstring \<Rightarrow> nat" where
  "slice_count text = (length text + (chunkSize - 1)) div chunkSize"

text \<open>
  Modelled from the spec: the reading side of the wire format, which is not part of the
  route handler. The payload of a frame is what stands between the envelope \<open>0:"\<close> and the
  closing \<open>"\<close> with its line feed. The reader decodes the payload from UTF-8 (one to four
  bytes a code point, a code point above U+FFFF as a surrogate pair) and unescapes it:
  \<open>\"\<close> is read as a quote and \<open>\n\<close> as a line feed, left to right, and every other code
  unit is kept.
\<close>

definition payload :: "byte list \<Rightarrow> byte list" where
  "payload frame = take (length frame - 5) (drop 3 frame)"

definition sequence_length :: "byte \<Rightarrow> nat" where
  "sequence_length b =
     (if b < 0x80 then 1 else if b < 0xE0 then 2 else if b < 0xF0 then 3 else 4)"

definition code_point :: "byte list \<Rightarrow> nat" where
  "code_point bs =
     (case bs of
        [a] \<Rightarrow> unat a
      | [a, b] \<Rightarrow> (unat a - 0xC0) * 0x40 + (unat b - 0x80)
      | [a, b, c] \<Rightarrow> (unat a - 0xE0) * 0x1000 + (unat b - 0x80) * 0x40 + (unat c - 0x80)
      | [a, b, c, d] \<Rightarrow>
          (unat a - 0xF0) * 0x40000 + (unat b - 0x80) * 0x1000 + (unat c - 0x80) * 0x40
          + (unat d - 0x80)
      | _ \<Rightarrow> 0xFFFD)"

definition utf16 :: "nat \<Rightarrow> jsstring" where
  "utf16 cp =
     (if cp < 0x10000 then [of_nat cp]
      else [of_nat (0xD800 + (cp - 0x10000) div 0x400),
            of_nat (0xDC00 + (cp - 0x10000) mod 0x400)])"

function decode :: "byte list \<Rightarrow> jsstring" where
  "decode bs =
     (if bs = [] then []
      else utf16 (code_point (take (sequence_length (hd bs)) bs))
           @ decode (drop (sequence_length (hd bs)) bs))"
  by pat_completeness auto
termination
  by (relation "measure length") (auto simp: sequence_length_def)

declare decode.simps [simp del]

fun unescape :: "jsstring \<Rightarrow> jsstring" where
  "unescape (a # b # rest) =
     (if a = backslash \<and> b = quote then quote # unescape rest
      else if a = backslash \<and> b = letter_n then newline # unescape rest
      else a # unescape (b # rest))"
| "unescape rest = rest"

definition reconstruct :: "byte list list \<Rightarrow> jsstring" where
  "reconstruct fs = concat (map (\<lambda>frame. unescape (decode (payload frame))) fs)"



text \<open>The shapes of an embedding response the specification names: a flat sequence of
  numbers, a batch (a non-empty sequence of sequences), a key-value mapping.\<close>

fun is_flat_numeric :: "'n jsval \<Rightarrow> bool" where
  "is_flat_numeric (JArr xs) = list_all is_number xs"
| "is_flat_numeric _ = False"

fun is_batch :: "'n jsval \<Rightarrow> bool" where
  "is_batch (JArr xs) = (xs \<noteq> [] \<and> list_all isArray xs)"
| "is_batch _ = False"

fun is_mapping :: "'n jsval \<Rightarrow> bool" where
  "is_mapping (JObj props) = True"
| "is_mapping _ = False"

text \<open>The attempts of Tier 2 in their declared order, and the text an attempt yields:
  the text read from what the model answered, or the empty text when the call throws.\<close>

definition hf_attempts :: "jsstring \<Rightarrow> 'n call list" where
  "hf_attempts prompt =
     map (\<lambda>model. CallTextGeneration model prompt) textGenModels
     @ map (\<lambda>model. CallTextToText model prompt) t5Models"

fun attempt_text :: "'n world \<Rightarrow> 'n call \<Rightarrow> jsstring" where
  "attempt_text w (CallTextGeneration model prompt) =
     (case textGeneration w model prompt of
        Inl e \<Rightarrow> []
      | Inr result \<Rightarrow> generated_text result)"
| "attempt_text w (CallTextToText model prompt) =
     (case textToText w model prompt of
        Inl e \<Rightarrow> []
      | Inr result \<Rightarrow> generated_text result)"
| "attempt_text w _ = []"

text \<open>The fallback policy in the words of the specification, to compare \<open>generateWithHF\<close>
  with: the attempts are made in the given order and stop at the first one that yields a
  non-empty text; when every attempt yields the empty text, the result is the empty text.
  The second component lists the attempts made.\<close>

fun first_nonempty :: "('a \<Rightarrow> jsstring) \<Rightarrow> 'a list \<Rightarrow> jsstring \<times> 'a list" where
  "first_nonempty f [] = ([], [])"
| "first_nonempty f (x # xs) =
     (if f x \<noteq> [] then (f x, [x])
      else (case first_nonempty f xs of (t, tried) \<Rightarrow> (t, x # tried)))"

text \<open>How many messages of an assembled prompt have the system role.\<close>

definition system_count :: "ProviderMessage list \<Rightarrow> nat" where
  "system_count msgs = length (filter (\<lambda>m. role m = System) msgs)"

fun is_groq_call :: "'n call \<Rightarrow> bool" where
  "is_groq_call (CallGroq msgs) = True"
| "is_groq_call _ = False"

fun is_generation_call :: "'n call \<Rightarrow> bool" where
  "is_generation_call (CallGroq msgs) = True"
| "is_generation_call (CallTextGeneration model prompt) = True"
| "is_generation_call (CallTextToText model prompt) = True"
| "is_generation_call _ = False"

fun is_find_call :: "'n call \<Rightarrow> bool" where
  "is_find_call (CallCollectionFind v k) = True"
| "is_find_call _ = False"

fun is_embedding_call :: "'n call \<Rightarrow> bool" where
  "is_embedding_call (CallFeatureExtraction model text) = True"
| "is_embedding_call _ = False"

text \<open>A request passes validation when the handler finds a non-empty trimmed question.\<close>

definition validated :: "'n world \<Rightarrow> 'n request \<Rightarrow> jsstring \<Rightarrow> bool" where
  "validated w req latest \<longleftrightarrow> latestMessage w req = Inr (Some latest) \<and> truthy latest"

text \<open>For a validated request with question \<open>latest\<close>: the context the retrieval gives,
  the messages the handler assembles, and the prompt it builds from them.\<close>

definition handler_context :: "'n world \<Rightarrow> jsstring \<Rightarrow> jsstring" where
  "handler_context w latest = fst (retrieval_step w (fst (embedding_step w latest)))"

definition handler_messages :: "'n world \<Rightarrow> 'n request \<Rightarrow> jsstring \<Rightarrow> ProviderMessage list" where
  "handler_messages w req latest =
     groqMessages w (systemPrompt (handler_context w latest) latest) (messages_of req)"

definition handler_prompt :: "'n world \<Rightarrow> 'n request \<Rightarrow> jsstring \<Rightarrow> jsstring" where
  "handler_prompt w req latest = build_prompt (handler_messages w req latest)"

definition generated_text_of :: "'n world \<Rightarrow> 'n request \<Rightarrow> jsstring \<Rightarrow> jsstring" where
  "generated_text_of w req latest =
     fst (generate w (handler_messages w req latest) (handler_prompt w req latest))"

section \<open>Example inputs\<close>

text \<open>The scenario of the specification: one user question, an embedding service that
  answers with a flat vector, a vector store with two documents, a Tier 1 provider that
  answers, and Tier 2 models that all fail.\<close>

definition question :: jsstring where
  "question = js ''Who won the 2023 championship?''"

definition example_request :: "nat request" where
  "example_request = Messages [\<lparr>role = User, content = JStr question\<rparr>]"

definition example_world :: "nat world" where
  "example_world =
     \<lparr>HF_TOKEN = Some (js ''hf_token''),
      GROQ_API_KEY = Some (js ''gsk_key''),
      featureExtraction = (\<lambda>model text. Inr (JArr [JNum 1, JNum 2, JNum 3])),
      collection_find =
        (\<lambda>v k. Inr [\<lparr>doc_text = js ''doc one''\<rparr>, \<lparr>doc_text = js ''doc two''\<rparr>]),
      groq_fetch = (\<lambda>msgs. GroqOk (Some (js ''Max Verstappen.''))),
      textGeneration = (\<lambda>model prompt. Inl (Error (js ''Not Found''))),
      textToText = (\<lambda>model prompt. Inl (Error (js ''Not Found''))),
      toString = (\<lambda>v. Inr (js ''[object Object]'')),
      JSON_stringify = (\<lambda>v. js ''[...]'')\<rparr>"

text \<open>The same world without the Tier 1 credential, without the Tier 2 credential, with
  a failing vector store, with a Tier 1 answer that is a backslash and the letter n, with
  a Tier 1 answer that is one line feed, and with an embedding service that answers with a
  sequence of strings.\<close>

definition no_groq_world :: "nat world" where
  "no_groq_world = example_world\<lparr>GROQ_API_KEY := None\<rparr>"

definition no_hf_token_world :: "nat world" where
  "no_hf_token_world = example_world\<lparr>HF_TOKEN := None\<rparr>"

definition failing_store_world :: "nat world" where
  "failing_store_world =
     example_world\<lparr>collection_find := (\<lambda>v k. Inl (Error (js ''timeout'')))\<rparr>"

definition backslash_world :: "nat world" where
  "backslash_world =
     example_world\<lparr>groq_fetch := (\<lambda>msgs. GroqOk (Some [backslash, letter_n]))\<rparr>"

definition newline_world :: "nat world" where
  "newline_world = example_world\<lparr>groq_fetch := (\<lambda>msgs. GroqOk (Some [newline]))\<rparr>"

text \<open>A conversation that opens with a system message of the client's own, and one whose
  last message holds only white space.\<close>

definition system_request :: "nat request" where
  "system_request =
     Messages [\<lparr>role = System, content = JStr (js ''Be brief.'')\<rparr>,
               \<lparr>role = User, content = JStr question\<rparr>]"

definition blank_request :: "nat request" where
  "blank_request = Messages [\<lparr>role = User, content = JStr (js ''  '')\<rparr>]"

text \<open>A world without the Tier 1 credential in which only the third model of the first
  family answers.\<close>

definition third_model_world :: "nat world" where
  "third_model_world =
     no_groq_world\<lparr>textGeneration :=
       (\<lambda>model prompt.
          if model = js ''distilgpt2'' then Inr (HfValue (Some (js ''Verstappen'')) None)
          else Inl (Error (js ''Not Found'')))\<rparr>"

text \<open>A world without the Tier 1 credential in which no model of the first family
  answers and the first model of the second family answers with an array.\<close>

definition t5_world :: "nat world" where
  "t5_world =
     no_groq_world\<lparr>textToText :=
       (\<lambda>model prompt.
          if model = js ''google/flan-t5-base''
          then Inr (HfValue None (Some (js ''Hamilton'')))
          else Inl (Error (js ''Not Found'')))\<rparr>"



definition strings_world :: "nat world" where
  "strings_world =
     example_world\<lparr>featureExtraction := (\<lambda>model text. Inr (JArr [JStr (js ''a'')]))\<rparr>"

section \<open>The stream framer\<close>

lemma escape_concat: "escape text = concat (map escape_unit text)"
  by (induction "text")
     (auto simp: escape_def replace_all_def escape_unit_def quote_def newline_def
        backslash_def letter_n_def)

lemma escape_unit_nonempty: "escape_unit x \<noteq> []"
  by (simp add: escape_unit_def)

lemma escape_eq_Nil: "escape text = [] \<longleftrightarrow> text = []"
  by (cases "text") (simp_all add: escape_concat escape_unit_nonempty)

lemma utf8_nonempty: "utf8 cp \<noteq> []"
  by (simp add: utf8_def)

lemma encode_eq_Nil: "encode s = [] \<longleftrightarrow> s = []"
  by (induction s rule: encode.induct) (simp_all add: utf8_nonempty replacement_def)

text \<open>The encoding of two strings put together is the two encodings put together, unless
  the first ends with a high surrogate and the second begins with a low one.\<close>

lemma encode_append:
  "\<not> (a \<noteq> [] \<and> b \<noteq> [] \<and> is_high_surrogate (last a) \<and> is_low_surrogate (hd b))
   \<Longrightarrow> encode (a @ b) = encode a @ encode b"
proof (induction a rule: encode.induct)
  case 1
  show ?case by simp
next
  case (2 u)
  then show ?case by (cases b) auto
next
  case (3 u v rest)
  then show ?case by (cases "rest = []") auto
qed

lemma quote_not_surrogate: "\<not> is_high_surrogate quote" "\<not> is_low_surrogate quote"
  by (simp_all add: is_high_surrogate_def is_low_surrogate_def quote_def)

lemma encode_envelope:
  "encode (js ''0:'' @ [quote]) = bytes ''0:'' @ [0x22]"
  "encode [quote, newline] = [0x22, 0x0A]"
  by (simp_all add: js_def bytes_def quote_def newline_def utf8_def is_high_surrogate_def
        is_low_surrogate_def)

lemma encode_formatted:
  "encode (formatted t) = bytes ''0:'' @ [0x22] @ encode (escape t) @ [0x22, 0x0A]"
proof -
  have split: "formatted t = (js ''0:'' @ [quote]) @ (escape t @ [quote, newline])"
    by (simp add: formatted_def)
  have head: "encode ((js ''0:'' @ [quote]) @ (escape t @ [quote, newline]))
        = encode (js ''0:'' @ [quote]) @ encode (escape t @ [quote, newline])"
    by (rule encode_append) (simp add: quote_not_surrogate)
  have tail: "encode (escape t @ [quote, newline])
        = encode (escape t) @ encode [quote, newline]"
    by (rule encode_append) (simp add: quote_not_surrogate)
  have "encode (formatted t)
        = encode (js ''0:'' @ [quote]) @ encode (escape t) @ encode [quote, newline]"
    by (simp only: split head tail)
  then show ?thesis
    by (simp only: encode_envelope append_assoc)
qed

lemma queue_emit:
  "queue (emit c text)
   = (if text = [] then queue c else queue c @ [encode (formatted text)])"
  by (simp add: emit_def truthy_def enqueue_def)

lemma is_closed_emit: "is_closed (emit c text) = is_closed c"
  by (simp add: emit_def truthy_def enqueue_def)

lemma slice_count_less: "chunkSize * k < length text \<longleftrightarrow> k < slice_count text"
  by (auto simp: slice_count_def chunkSize_def)

lemma length_nth_slice:
  "length (nth_slice text k) = min chunkSize (length text - chunkSize * k)"
  by (simp add: nth_slice_def slice_js_def)

lemma nth_slice_nonempty: "k < slice_count text \<Longrightarrow> nth_slice text k \<noteq> []"
proof -
  assume "k < slice_count text"
  then have "chunkSize * k < length text" by (simp add: slice_count_less)
  then have "0 < length (nth_slice text k)"
    by (simp add: length_nth_slice chunkSize_def)
  then show ?thesis by auto
qed


lemma concat_slices_take:
  "concat (map (nth_slice text) [0..<m]) = take (chunkSize * m) text"
proof (induction m)
  case 0
  show ?case by simp
next
  case (Suc m)
  have "take (chunkSize * m + chunkSize) text
        = take (chunkSize * m) text @ take chunkSize (drop (chunkSize * m) text)"
    by (rule take_add)
  with Suc show ?case by (simp add: nth_slice_def slice_js_def add.commute)
qed

lemma concat_slices: "concat (map (nth_slice text) [0..<slice_count text]) = text"
proof -
  have "length text \<le> chunkSize * slice_count text"
    by (simp add: slice_count_def chunkSize_def)
  then show ?thesis by (simp add: concat_slices_take)
qed

lemma streamText_loop_queue:
  "queue (streamText_loop c text emit (chunkSize * k))
   = queue c @ map (\<lambda>j. encode (formatted (nth_slice text j))) [k..<slice_count text]"
proof (induction "slice_count text - k" arbitrary: k c)
  case 0
  then have "\<not> chunkSize * k < length text" by (simp add: slice_count_less)
  moreover from 0 have "[k..<slice_count text] = []" by simp
  ultimately show ?case by (subst streamText_loop.simps) simp
next
  case (Suc d)
  then have lt: "k < slice_count text" by simp
  then have inb: "chunkSize * k < length text" by (simp add: slice_count_less)
  have ne: "nth_slice text k \<noteq> []" using lt by (rule nth_slice_nonempty)
  have step: "streamText_loop c text emit (chunkSize * k)
              = streamText_loop (emit c (nth_slice text k)) text emit (chunkSize * Suc k)"
    using inb by (subst streamText_loop.simps) (simp add: nth_slice_def add.commute)
  have "d = slice_count text - Suc k" using Suc.hyps(2) by simp
  then have ih: "queue (streamText_loop (emit c (nth_slice text k)) text emit (chunkSize * Suc k))
       = queue (emit c (nth_slice text k))
         @ map (\<lambda>j. encode (formatted (nth_slice text j))) [Suc k..<slice_count text]"
    by (rule Suc.hyps(1))
  have "[k..<slice_count text] = k # [Suc k..<slice_count text]"
    using lt by (simp add: upt_conv_Cons)
  with step ih ne show ?case by (simp add: queue_emit)
qed

lemma streamText_loop_closed:
  "is_closed (streamText_loop c text emit i) = is_closed c"
  by (induction c "text" emit i rule: streamText_loop.induct)
     (subst streamText_loop.simps, simp add: is_closed_emit)

lemma slice_count_Nil: "slice_count [] = 0"
  by (simp add: slice_count_def chunkSize_def)

lemma streamText_queue:
  "queue (streamText c text emit)
   = queue c @ map (\<lambda>j. encode (formatted (nth_slice text j))) [0..<slice_count text]"
proof (cases "text = []")
  case True
  then show ?thesis by (simp add: streamText_def truthy_def slice_count_Nil)
next
  case False
  then show ?thesis
    using streamText_loop_queue [of c "text" 0] by (simp add: streamText_def truthy_def)
qed

lemma streamText_closed: "is_closed (streamText c text emit) = is_closed c"
  by (simp add: streamText_def streamText_loop_closed)

section \<open>Reading the frames back\<close>

lemma payload_formatted: "payload (encode (formatted t)) = encode (escape t)"
  by (simp add: payload_def encode_formatted bytes_def)

lemma decode_Nil: "decode [] = []"
  by (subst decode.simps) simp

lemma decode_Cons:
  "decode (b # bs)
   = utf16 (code_point (take (sequence_length b) (b # bs)))
     @ decode (drop (sequence_length b) (b # bs))"
  by (subst decode.simps) simp

lemma unat_byte_bound: "unat (b :: byte) < 65536"
  using unsigned_less [of b, where 'a = nat] by simp

lemma decode_ascii_Cons: "b < 0x80 \<Longrightarrow> decode (b # bs) = ucast b # decode bs"
  by (subst decode.simps)
     (simp add: sequence_length_def code_point_def utf16_def unat_byte_bound)

lemma ascii_surrogate:
  "(u :: code_unit) < 0x80 \<Longrightarrow> \<not> is_high_surrogate u \<and> \<not> is_low_surrogate u"
  by (simp add: is_high_surrogate_def is_low_surrogate_def word_less_nat_alt word_le_nat_alt)

lemma ascii_byte: "(u :: code_unit) < 0x80 \<Longrightarrow> (ucast u :: byte) < 0x80"
  by (simp add: word_less_nat_alt unsigned_ucast_eq take_bit_eq_mod)

lemma ascii_back: "(u :: code_unit) < 0x80 \<Longrightarrow> (ucast (ucast u :: byte) :: code_unit) = u"
  by (simp add: word_less_nat_alt word_unat_eq_iff unsigned_ucast_eq take_bit_eq_mod
        unat_mod)

lemma encode_ascii: "\<forall>u \<in> set s. u < 0x80 \<Longrightarrow> encode s = map ucast s"
proof (induction s rule: encode.induct)
  case 1
  show ?case by simp
next
  case (2 u)
  then show ?case by (simp add: ascii_surrogate utf8_def word_less_nat_alt)
next
  case (3 u v rest)
  then show ?case by (simp add: ascii_surrogate utf8_def word_less_nat_alt)
qed

lemma decode_encode_ascii: "\<forall>u \<in> set s. u < 0x80 \<Longrightarrow> decode (encode s) = s"
proof -
  assume a: "\<forall>u \<in> set s. u < 0x80"
  then have "decode (map ucast s :: byte list) = s"
    by (induction s) (simp_all add: decode_Nil decode_ascii_Cons ascii_byte ascii_back)
  with a show ?thesis by (simp add: encode_ascii)
qed

lemma escape_ascii: "\<forall>u \<in> set s. u < 0x80 \<Longrightarrow> \<forall>u \<in> set (escape s). u < 0x80"
  by (auto simp: escape_concat escape_unit_def backslash_def quote_def letter_n_def
        split: if_splits)

lemma units_distinct:
  "quote \<noteq> newline" "quote \<noteq> backslash" "quote \<noteq> letter_n"
  "newline \<noteq> backslash" "newline \<noteq> letter_n" "backslash \<noteq> letter_n"
  by (simp_all add: quote_def newline_def backslash_def letter_n_def)

lemma unescape_escape:
  "backslash \<notin> set t \<Longrightarrow> unescape (escape t) = t"
proof (induction t)
  case Nil
  show ?case by (simp add: escape_concat)
next
  case (Cons x xs)
  then have ih: "unescape (escape xs) = xs" and nb: "x \<noteq> backslash" by auto
  show ?case
  proof (cases "escape xs")
    case Nil
    then have "xs = []" by (simp add: escape_eq_Nil)
    with nb show ?thesis
      by (simp add: escape_concat escape_unit_def units_distinct units_distinct [symmetric])
  next
    case (Cons b rest)
    with ih nb show ?thesis
      by (simp add: escape_concat escape_unit_def units_distinct units_distinct [symmetric])
  qed
qed

lemma nth_slice_set: "set (nth_slice t k) \<subseteq> set t"
  by (auto simp: nth_slice_def slice_js_def dest: in_set_takeD in_set_dropD)

text \<open>The round trip of an ASCII text without a backslash.\<close>

lemma reconstruct_streamText:
  assumes "backslash \<notin> set t" and "\<forall>u \<in> set t. u < 0x80"
  shows "reconstruct (queue (streamText new_controller t emit)) = t"
proof -
  have "unescape (decode (encode (escape (nth_slice t k)))) = nth_slice t k" for k
  proof -
    have "\<forall>u \<in> set (nth_slice t k). u < 0x80"
      using assms(2) nth_slice_set by blast
    then have "decode (encode (escape (nth_slice t k))) = escape (nth_slice t k)"
      by (intro decode_encode_ascii escape_ascii)
    moreover have "backslash \<notin> set (nth_slice t k)"
      using assms(1) nth_slice_set by blast
    ultimately show ?thesis by (simp add: unescape_escape)
  qed
  then have "reconstruct (queue (streamText new_controller t emit))
             = concat (map (nth_slice t) [0..<slice_count t])"
    by (simp add: reconstruct_def streamText_queue new_controller_def payload_formatted
          comp_def)
  then show ?thesis by (simp add: concat_slices)
qed

lemma apology_nonempty: "apology \<noteq> []"
  by (simp add: apology_def js_def)

lemma start_frames:
  "queue (fst (start w msgs p c))
   = queue c @ (let t = fst (generate w msgs p) in
       if t = [] then [encode (formatted apology)]
       else map (\<lambda>j. encode (formatted (nth_slice t j))) [0..<slice_count t])"
  by (simp add: start_def close_def queue_emit streamText_queue truthy_def apology_nonempty
        split: prod.splits)

lemma start_calls: "snd (start w msgs p c) = snd (generate w msgs p)"
  by (simp add: start_def split: prod.splits)

lemma start_closed: "is_closed (fst (start w msgs p c))"
  by (simp add: start_def close_def split: prod.splits)

lemma POST_rejected:
  "latestMessage w req = Inr None \<or> latestMessage w req = Inr (Some [])
   \<Longrightarrow> POST w req = (no_user_message, [])"
  by (auto simp: POST_def truthy_def)

lemma POST_throws:
  "latestMessage w req = Inl e \<Longrightarrow> POST w req = (internal_server_error, [])"
  by (simp add: POST_def)

lemma POST_no_token:
  "validated w req q \<Longrightarrow> \<not> env_truthy (HF_TOKEN w) \<Longrightarrow>
   POST w req = (missing_hf_token,
     snd (embedding_step w q) @ snd (retrieval_step w (fst (embedding_step w q))))"
  by (simp add: POST_def validated_def Let_def case_prod_beta)

lemma POST_stream:
  "validated w req q \<Longrightarrow> env_truthy (HF_TOKEN w) \<Longrightarrow>
   POST w req =
     (stream_response
        (fst (start w (handler_messages w req q) (handler_prompt w req q) new_controller)),
      snd (embedding_step w q) @ snd (retrieval_step w (fst (embedding_step w q)))
      @ snd (generate w (handler_messages w req q) (handler_prompt w req q)))"
  by (simp add: POST_def validated_def Let_def handler_messages_def handler_prompt_def
        handler_context_def start_calls case_prod_beta)

lemma POST_cases:
  obtains (throws) e where "latestMessage w req = Inl e"
  | (rejected) "latestMessage w req = Inr None \<or> latestMessage w req = Inr (Some [])"
  | (accepted) q where "validated w req q"
proof (cases "latestMessage w req")
  case (Inl e)
  then show ?thesis by (rule throws)
next
  case (Inr r)
  show ?thesis
  proof (cases r)
    case None
    with Inr show ?thesis by (intro rejected) simp
  next
    case (Some q)
    show ?thesis
    proof (cases "q = []")
      case True
      with Inr Some show ?thesis by (intro rejected) simp
    next
      case False
      with Inr Some have "validated w req q" by (simp add: validated_def truthy_def)
      then show ?thesis by (rule accepted)
    qed
  qed
qed

section \<open>The responses of the handler\<close>

lemma trim_question: "trim question = question"
  by (simp add: trim_def question_def js_def is_whitespace_def)

lemma question_nonempty: "question \<noteq> []"
  by (simp add: question_def js_def)

lemma example_validated: "validated w example_request question"
  by (simp add: validated_def latestMessage_def example_request_def trim_question truthy_def
        question_nonempty)

lemma frames_stream:
  "validated w req q \<Longrightarrow> env_truthy (HF_TOKEN w) \<Longrightarrow>
   frames (fst (POST w req))
   = (let t = generated_text_of w req q in
      if t = [] then [encode (formatted apology)]
      else map (\<lambda>j. encode (formatted (nth_slice t j))) [0..<slice_count t])"
  by (simp add: POST_stream frames_def stream_response_def start_frames new_controller_def
        generated_text_of_def)

lemma frames_json:
  "frames (json_response st b) = []"
  by (simp add: frames_def json_response_def)

lemma POST_frame_form:
  assumes "f \<in> set (frames (fst (POST w req)))"
  shows "\<exists>t. t \<noteq> [] \<and> f = encode (formatted t)"
proof (cases w req rule: POST_cases)
  case (throws e)
  with assms show ?thesis
    by (simp add: POST_throws internal_server_error_def frames_json)
next
  case rejected
  with assms show ?thesis
    by (simp add: POST_rejected no_user_message_def frames_json)
next
  case (accepted q)
  show ?thesis
  proof (cases "env_truthy (HF_TOKEN w)")
    case False
    with accepted assms show ?thesis
      by (simp add: POST_no_token missing_hf_token_def frames_json)
  next
    case True
    let ?t = "generated_text_of w req q"
    show ?thesis
    proof (cases "?t = []")
      case True
      with accepted \<open>env_truthy (HF_TOKEN w)\<close> assms have "f = encode (formatted apology)"
        by (simp add: frames_stream)
      then show ?thesis using apology_nonempty by blast
    next
      case False
      with accepted \<open>env_truthy (HF_TOKEN w)\<close> assms
      obtain j where "j < slice_count ?t" and "f = encode (formatted (nth_slice ?t j))"
        by (auto simp: frames_stream Let_def)
      then show ?thesis using nth_slice_nonempty by blast
    qed
  qed
qed













lemma example_generated:
  "generated_text_of example_world example_request question = js ''Max Verstappen.''"
  by (simp add: generated_text_of_def generate_def example_world_def generateWithGroq_def
        env_truthy_def truthy_def js_def)

lemma example_token: "env_truthy (HF_TOKEN example_world)"
  by (simp add: example_world_def env_truthy_def truthy_def js_def)

lemma slices_short:
  "t \<noteq> [] \<Longrightarrow> length t \<le> 40 \<Longrightarrow>
   map (\<lambda>j. encode (formatted (nth_slice t j))) [0..<slice_count t]
   = [encode (formatted t)]"
proof -
  assume "t \<noteq> []" and "length t \<le> 40"
  then have "slice_count t = 1"
    by (cases t) (simp_all add: slice_count_def chunkSize_def)
  with \<open>length t \<le> 40\<close> show ?thesis
    by (simp add: nth_slice_def slice_js_def chunkSize_def)
qed

lemma example_frames:
  "frames (fst (POST example_world example_request))
   = [encode (formatted (js ''Max Verstappen.''))]"
proof -
  have "js ''Max Verstappen.'' \<noteq> []" and "length (js ''Max Verstappen.'') \<le> 40"
    by (simp_all add: js_def)
  then show ?thesis
    using frames_stream [OF example_validated example_token]
    by (simp add: example_generated slices_short)
qed

lemma encode_plain_ascii:
  assumes "\<forall>u \<in> set t. u < 0x80" and "quote \<notin> set t" and "newline \<notin> set t"
  shows "encode (formatted t) = bytes ''0:'' @ [0x22] @ map ucast t @ [0x22, 0x0A]"
proof -
  have "escape t = t"
    using assms(2,3) by (induction t) (auto simp: escape_concat escape_unit_def)
  with assms(1) show ?thesis
    by (simp add: encode_formatted encode_ascii)
qed

lemma slice_count_apology: "slice_count apology = 2"
  by (simp add: slice_count_def chunkSize_def apology_def js_def)

lemma apology_ascii: "\<forall>u \<in> set apology. u < 0x80"
  by (simp add: apology_def js_def)




lemma upt_2: "[0..<2] = [0, 1]"
  by (simp add: upt_rec)









lemma apology_plain:
  "quote \<notin> set apology" "newline \<notin> set apology" "backslash \<notin> set apology"
  by (simp_all add: apology_def js_def quote_def newline_def backslash_def)

lemma escape_plain:
  "quote \<notin> set t \<Longrightarrow> newline \<notin> set t \<Longrightarrow> escape t = t"
  by (induction t) (auto simp: escape_concat escape_unit_def)


section \<open>The fallback chain\<close>

lemma textGen_loop_first:
  "textGen_loop w p ms
   = (case first_nonempty (attempt_text w) (map (\<lambda>m. CallTextGeneration m p) ms) of
        (t, tried) \<Rightarrow> (if t = [] then None else Some t, tried))"
  by (induction ms) (simp_all add: Let_def truthy_def split: prod.splits sum.splits)

lemma t5_loop_first:
  "t5_loop w p ms
   = (case first_nonempty (attempt_text w) (map (\<lambda>m. CallTextToText m p) ms) of
        (t, tried) \<Rightarrow> (if t = [] then None else Some t, tried))"
  by (induction ms) (simp_all add: Let_def truthy_def split: prod.splits sum.splits)

lemma first_nonempty_append:
  "first_nonempty f (xs @ ys)
   = (case first_nonempty f xs of
        (t, tried) \<Rightarrow>
          if t \<noteq> [] then (t, tried)
          else (case first_nonempty f ys of (t', tried') \<Rightarrow> (t', tried @ tried')))"
  by (induction xs) (simp_all split: prod.splits)

lemma generateWithHF_first:
  "generateWithHF w p = first_nonempty (attempt_text w) (hf_attempts p)"
  by (simp add: generateWithHF_def hf_attempts_def textGen_loop_first t5_loop_first
        first_nonempty_append split: prod.splits)

lemma first_nonempty_prefix:
  "snd (first_nonempty f xs) = take (length (snd (first_nonempty f xs))) xs"
  by (induction xs) (simp_all add: case_prod_beta)

lemma first_nonempty_tried: "xs \<noteq> [] \<Longrightarrow> snd (first_nonempty f xs) \<noteq> []"
  by (cases xs) (simp_all split: prod.splits)

lemma first_nonempty_last:
  "xs \<noteq> [] \<Longrightarrow> fst (first_nonempty f xs) = f (last (snd (first_nonempty f xs)))"
proof (induction xs)
  case Nil
  then show ?case by simp
next
  case (Cons x xs)
  show ?case
  proof (cases "xs = []")
    case True
    then show ?thesis by simp
  next
    case False
    with Cons.IH first_nonempty_tried [of xs f] show ?thesis
      by (simp add: case_prod_beta)
  qed
qed

lemma first_nonempty_earlier:
  "c \<in> set (butlast (snd (first_nonempty f xs))) \<Longrightarrow> f c = []"
proof (induction xs)
  case Nil
  then show ?case by simp
next
  case (Cons x xs)
  then show ?case
    by (cases "f x = []") (auto split: prod.splits if_splits)
qed

lemma first_nonempty_all:
  "fst (first_nonempty f xs) = [] \<Longrightarrow> snd (first_nonempty f xs) = xs"
  by (induction xs) (auto split: prod.splits if_splits)

lemma first_nonempty_none:
  "(\<forall>x \<in> set xs. f x = []) \<Longrightarrow> first_nonempty f xs = ([], xs)"
  by (induction xs) simp_all

lemma hf_attempts_list:
  "hf_attempts p =
     [CallTextGeneration (js ''bigscience/bloom-560m'') p,
      CallTextGeneration (js ''gpt2'') p,
      CallTextGeneration (js ''distilgpt2'') p,
      CallTextToText (js ''google/flan-t5-base'') p,
      CallTextToText (js ''google/flan-t5-small'') p]"
  by (simp add: hf_attempts_def textGenModels_def t5Models_def)

lemma hf_attempts_not_groq: "c \<in> set (hf_attempts p) \<Longrightarrow> \<not> is_groq_call c"
  by (auto simp: hf_attempts_def)

lemma generateWithHF_not_groq: "filter is_groq_call (snd (generateWithHF w p)) = []"
proof -
  have "set (snd (generateWithHF w p)) \<subseteq> set (hf_attempts p)"
    using first_nonempty_prefix [of "attempt_text w" "hf_attempts p"] set_take_subset
    by (metis generateWithHF_first)
  then show ?thesis
    using hf_attempts_not_groq by (auto simp: filter_empty_conv)
qed

lemma generateWithGroq_calls: "length (snd (generateWithGroq w msgs)) \<le> 1"
  by (simp add: generateWithGroq_def Let_def)

lemma generateWithGroq_no_key:
  "\<not> env_truthy (GROQ_API_KEY w) \<Longrightarrow> generateWithGroq w msgs = ([], [])"
  by (simp add: generateWithGroq_def)

lemma generate_parts:
  "generate w msgs p =
     (case generateWithGroq w msgs of
        (text1, calls1) \<Rightarrow>
          if text1 = [] \<and> env_truthy (HF_TOKEN w)
          then (fst (generateWithHF w p), calls1 @ snd (generateWithHF w p))
          else (text1, calls1))"
  by (cases "env_truthy (GROQ_API_KEY w)")
     (simp_all add: generate_def generateWithGroq_no_key truthy_def split: prod.splits)

lemma generate_groq_calls: "length (filter is_groq_call (snd (generate w msgs p))) \<le> 1"
proof -
  have "length (filter is_groq_call (snd (generateWithGroq w msgs))) \<le> 1"
    using generateWithGroq_calls [of w msgs] length_filter_le le_trans by blast
  then show ?thesis
    by (simp add: generate_parts generateWithHF_not_groq case_prod_beta)
qed

lemma embedding_step_calls:
  "snd (embedding_step w q) = [CallFeatureExtraction (js ''BAAI/bge-small-en-v1.5'') q]"
  by (simp add: embedding_step_def getHuggingFaceEmbedding_def Let_def split: sum.splits)

lemma retrieval_step_calls:
  "snd (retrieval_step w v) = (if v = [] then [] else [CallCollectionFind v 10])"
  by (simp add: retrieval_step_def)

lemma POST_groq_calls: "length (filter is_groq_call (snd (POST w req))) \<le> 1"
proof (cases w req rule: POST_cases)
  case (throws e)
  then show ?thesis by (simp add: POST_throws)
next
  case rejected
  then show ?thesis by (simp add: POST_rejected)
next
  case (accepted q)
  show ?thesis
  proof (cases "env_truthy (HF_TOKEN w)")
    case False
    with accepted show ?thesis
      by (simp add: POST_no_token embedding_step_calls retrieval_step_calls)
  next
    case True
    with accepted show ?thesis
      using generate_groq_calls [of w "handler_messages w req q" "handler_prompt w req q"]
      by (simp add: POST_stream embedding_step_calls retrieval_step_calls)
  qed
qed

lemma generateWithHF_prefix:
  "snd (generateWithHF w p) = take (length (snd (generateWithHF w p))) (hf_attempts p)"
  using first_nonempty_prefix [of "attempt_text w" "hf_attempts p"]
  by (simp only: generateWithHF_first)

lemma hf_attempts_nonempty: "hf_attempts p \<noteq> []"
  by (simp add: hf_attempts_list)

lemma generateWithHF_tried: "snd (generateWithHF w p) \<noteq> []"
  by (simp add: generateWithHF_first first_nonempty_tried hf_attempts_nonempty)

lemma generateWithHF_earlier:
  "\<forall>c \<in> set (butlast (snd (generateWithHF w p))). attempt_text w c = []"
  by (simp add: generateWithHF_first first_nonempty_earlier)

lemma generateWithHF_last:
  "fst (generateWithHF w p) = attempt_text w (last (snd (generateWithHF w p)))"
  by (simp add: generateWithHF_first first_nonempty_last hf_attempts_nonempty)

lemma generateWithHF_all:
  "fst (generateWithHF w p) = [] \<Longrightarrow> snd (generateWithHF w p) = hf_attempts p"
  by (simp add: generateWithHF_first first_nonempty_all)

lemma generateWithHF_none:
  "(\<forall>c \<in> set (hf_attempts p). attempt_text w c = [])
   \<Longrightarrow> generateWithHF w p = ([], hf_attempts p)"
  by (simp only: generateWithHF_first first_nonempty_none)

lemma generateWithGroq_world:
  "generateWithGroq w msgs
   = (if env_truthy (GROQ_API_KEY w)
      then (case groq_fetch w msgs of
              GroqThrows e \<Rightarrow> []
            | GroqNotOk st \<Rightarrow> []
            | GroqOk c \<Rightarrow> (case c of None \<Rightarrow> [] | Some s \<Rightarrow> s),
            [CallGroq msgs])
      else ([], []))"
proof -
  have "map (\<lambda>m. \<lparr>role = role m, content = content m\<rparr>) msgs = msgs"
    by (induction msgs) simp_all
  then show ?thesis by (simp add: generateWithGroq_def Let_def)
qed

lemma hf_attempts_generation: "c \<in> set (hf_attempts p) \<Longrightarrow> is_generation_call c"
  by (auto simp: hf_attempts_def)

lemma generateWithHF_generation:
  "filter is_generation_call (snd (generateWithHF w p)) = snd (generateWithHF w p)"
proof -
  have "set (snd (generateWithHF w p)) \<subseteq> set (hf_attempts p)"
    using generateWithHF_prefix [of w p] set_take_subset by metis
  then show ?thesis
    using hf_attempts_generation by (auto simp: filter_id_conv)
qed

lemma generate_generation:
  "filter is_generation_call (snd (generate w msgs p)) = snd (generate w msgs p)"
  by (simp add: generate_parts case_prod_beta generateWithGroq_world
        generateWithHF_generation)

lemma POST_generation_calls:
  "validated w req q \<Longrightarrow> env_truthy (HF_TOKEN w) \<Longrightarrow>
   filter is_generation_call (snd (POST w req))
   = snd (generate w (handler_messages w req q) (handler_prompt w req q))"
  by (simp add: POST_stream embedding_step_calls retrieval_step_calls generate_generation)

lemma generate_token:
  "env_truthy (HF_TOKEN w) \<Longrightarrow>
   generate w msgs p
   = (if fst (generateWithGroq w msgs) = []
      then (fst (generateWithHF w p), snd (generateWithGroq w msgs) @ snd (generateWithHF w p))
      else generateWithGroq w msgs)"
  by (simp add: generate_parts case_prod_beta)

text \<open>
  Claim C2. In one request the Groq endpoint is called at most once, and only with the
  key present; its text is what the endpoint answered, or empty. Tier 2 is entered after
  Tier 1 only when the Tier 1 text is empty, and it attempts the three text-generation
  models and then the two text-to-text models in their declared order, stopping at the
  first attempt that yields a non-empty text, where the text of an attempt is read from
  what the model answered and is empty when the call throws: the attempts made are a
  non-empty prefix of the declared list, every attempt before the last one yielded the
  empty text, and the result is the text of the last attempt. When every model fails or
  yields the empty text, all five are attempted and the result is the empty text. For a
  validated request with the token present, the calls of the handler are the embedding
  call, the similarity search, the Tier 1 call and these Tier 2 attempts, in this order,
  and the frames of the response are those of the first non-empty text.
\<close>

theorem C2_tier_order:
  fixes w :: "'n world"
  shows
    "length (filter is_groq_call (snd (POST w req))) \<le> 1
     \<and> generateWithGroq w msgs
         = (if env_truthy (GROQ_API_KEY w)
            then (case groq_fetch w msgs of
                    GroqThrows e \<Rightarrow> []
                  | GroqNotOk st \<Rightarrow> []
                  | GroqOk c \<Rightarrow> (case c of None \<Rightarrow> [] | Some s \<Rightarrow> s),
                  [CallGroq msgs])
            else ([], []))
     \<and> generate w msgs p
         = (if fst (generateWithGroq w msgs) = [] \<and> env_truthy (HF_TOKEN w)
            then (fst (generateWithHF w p),
                  snd (generateWithGroq w msgs) @ snd (generateWithHF w p))
            else generateWithGroq w msgs)
     \<and> hf_attempts p =
         [CallTextGeneration (js ''bigscience/bloom-560m'') p,
          CallTextGeneration (js ''gpt2'') p,
          CallTextGeneration (js ''distilgpt2'') p,
          CallTextToText (js ''google/flan-t5-base'') p,
          CallTextToText (js ''google/flan-t5-small'') p]
     \<and> (\<forall>model. attempt_text w (CallTextGeneration model p)
           = (case textGeneration w model p of
                Inl e \<Rightarrow> []
              | Inr (HfString s) \<Rightarrow> s
              | Inr (HfValue (Some s) first) \<Rightarrow> s
              | Inr (HfValue None (Some s)) \<Rightarrow> s
              | Inr (HfValue None None) \<Rightarrow> []))
     \<and> (\<forall>model. attempt_text w (CallTextToText model p)
           = (case textToText w model p of
                Inl e \<Rightarrow> []
              | Inr (HfString s) \<Rightarrow> s
              | Inr (HfValue (Some s) first) \<Rightarrow> s
              | Inr (HfValue None (Some s)) \<Rightarrow> s
              | Inr (HfValue None None) \<Rightarrow> []))
     \<and> generateWithHF w p = first_nonempty (attempt_text w) (hf_attempts p)
     \<and> snd (generateWithHF w p)
         = take (length (snd (generateWithHF w p))) (hf_attempts p)
     \<and> snd (generateWithHF w p) \<noteq> []
     \<and> (\<forall>c \<in> set (butlast (snd (generateWithHF w p))). attempt_text w c = [])
     \<and> fst (generateWithHF w p) = attempt_text w (last (snd (generateWithHF w p)))
     \<and> (fst (generateWithHF w p) = [] \<longrightarrow> snd (generateWithHF w p) = hf_attempts p)
     \<and> ((\<forall>c \<in> set (hf_attempts p). attempt_text w c = [])
          \<longrightarrow> generateWithHF w p = ([], hf_attempts p))
     \<and> (validated w req q \<and> env_truthy (HF_TOKEN w) \<longrightarrow>
          snd (POST w req)
          = [CallFeatureExtraction (js ''BAAI/bge-small-en-v1.5'') q]
            @ (if fst (embedding_step w q) = [] then []
               else [CallCollectionFind (fst (embedding_step w q)) 10])
            @ snd (generateWithGroq w (handler_messages w req q))
            @ (if fst (generateWithGroq w (handler_messages w req q)) = []
               then snd (generateWithHF w (handler_prompt w req q)) else []))
     \<and> (validated w req q \<and> env_truthy (HF_TOKEN w) \<longrightarrow>
          generated_text_of w req q
          = (if fst (generateWithGroq w (handler_messages w req q)) = []
             then fst (generateWithHF w (handler_prompt w req q))
             else fst (generateWithGroq w (handler_messages w req q))))
     \<and> (validated w req q \<and> env_truthy (HF_TOKEN w) \<longrightarrow>
          frames (fst (POST w req))
          = (if generated_text_of w req q = [] then [encode (formatted apology)]
             else map (\<lambda>k. encode (formatted (nth_slice (generated_text_of w req q) k)))
                    [0..<slice_count (generated_text_of w req q)]))"
proof -
  have a: "length (filter is_groq_call (snd (POST w req))) \<le> 1"
    by (rule POST_groq_calls)
  note b = generateWithGroq_world [of w msgs]
  have c: "generate w msgs p
         = (if fst (generateWithGroq w msgs) = [] \<and> env_truthy (HF_TOKEN w)
            then (fst (generateWithHF w p),
                  snd (generateWithGroq w msgs) @ snd (generateWithHF w p))
            else generateWithGroq w msgs)"
    by (simp add: generate_parts case_prod_beta)
  note d = hf_attempts_list [of p]
  have e1: "\<forall>model. attempt_text w (CallTextGeneration model p)
           = (case textGeneration w model p of
                Inl e \<Rightarrow> []
              | Inr (HfString s) \<Rightarrow> s
              | Inr (HfValue (Some s) first) \<Rightarrow> s
              | Inr (HfValue None (Some s)) \<Rightarrow> s
              | Inr (HfValue None None) \<Rightarrow> [])"
    by (simp split: sum.splits hf_result.splits option.splits)
  have e2: "\<forall>model. attempt_text w (CallTextToText model p)
           = (case textToText w model p of
                Inl e \<Rightarrow> []
              | Inr (HfString s) \<Rightarrow> s
              | Inr (HfValue (Some s) first) \<Rightarrow> s
              | Inr (HfValue None (Some s)) \<Rightarrow> s
              | Inr (HfValue None None) \<Rightarrow> [])"
    by (simp split: sum.splits hf_result.splits option.splits)
  note f = generateWithHF_first [of w p]
  note g = generateWithHF_prefix [of w p]
  note h = generateWithHF_tried [of w p]
  note i = generateWithHF_earlier [of w p]
  note j = generateWithHF_last [of w p]
  have k: "fst (generateWithHF w p) = [] \<longrightarrow> snd (generateWithHF w p) = hf_attempts p"
    by (rule impI) (rule generateWithHF_all)
  have l: "(\<forall>c \<in> set (hf_attempts p). attempt_text w c = [])
          \<longrightarrow> generateWithHF w p = ([], hf_attempts p)"
    by (rule impI) (rule generateWithHF_none)
  have m: "validated w req q \<and> env_truthy (HF_TOKEN w) \<longrightarrow>
          snd (POST w req)
          = [CallFeatureExtraction (js ''BAAI/bge-small-en-v1.5'') q]
            @ (if fst (embedding_step w q) = [] then []
               else [CallCollectionFind (fst (embedding_step w q)) 10])
            @ snd (generateWithGroq w (handler_messages w req q))
            @ (if fst (generateWithGroq w (handler_messages w req q)) = []
               then snd (generateWithHF w (handler_prompt w req q)) else [])"
  proof (intro impI, elim conjE)
    assume v: "validated w req q" and t: "env_truthy (HF_TOKEN w)"
    show "snd (POST w req)
          = [CallFeatureExtraction (js ''BAAI/bge-small-en-v1.5'') q]
            @ (if fst (embedding_step w q) = [] then []
               else [CallCollectionFind (fst (embedding_step w q)) 10])
            @ snd (generateWithGroq w (handler_messages w req q))
            @ (if fst (generateWithGroq w (handler_messages w req q)) = []
               then snd (generateWithHF w (handler_prompt w req q)) else [])"
      by (simp add: POST_stream [OF v t] embedding_step_calls retrieval_step_calls
            generate_token [OF t])
  qed
  have n: "validated w req q \<and> env_truthy (HF_TOKEN w) \<longrightarrow>
          generated_text_of w req q
          = (if fst (generateWithGroq w (handler_messages w req q)) = []
             then fst (generateWithHF w (handler_prompt w req q))
             else fst (generateWithGroq w (handler_messages w req q)))"
    by (simp add: generated_text_of_def generate_token)
  have o: "validated w req q \<and> env_truthy (HF_TOKEN w) \<longrightarrow>
          frames (fst (POST w req))
          = (if generated_text_of w req q = [] then [encode (formatted apology)]
             else map (\<lambda>k. encode (formatted (nth_slice (generated_text_of w req q) k)))
                    [0..<slice_count (generated_text_of w req q)])"
  proof (intro impI, elim conjE)
    assume v: "validated w req q" and t: "env_truthy (HF_TOKEN w)"
    show "frames (fst (POST w req))
          = (if generated_text_of w req q = [] then [encode (formatted apology)]
             else map (\<lambda>k. encode (formatted (nth_slice (generated_text_of w req q) k)))
                    [0..<slice_count (generated_text_of w req q)])"
      using frames_stream [OF v t] by (simp add: Let_def)
  qed
  show ?thesis
    by (intro conjI) (fact a b c d e1 e2 f g h i j k l m n o)+
qed

lemma example_attempts_fail:
  "attempt_text no_groq_world c = []"
  by (cases c) (simp_all add: no_groq_world_def example_world_def)

lemma third_model_generate:
  "generateWithHF third_model_world p = (js ''Verstappen'', take 3 (hf_attempts p))"
  by (simp add: generateWithHF_first hf_attempts_list third_model_world_def
        no_groq_world_def example_world_def js_def)

lemma t5_generate:
  "generateWithHF t5_world p = (js ''Hamilton'', take 4 (hf_attempts p))"
  by (simp add: generateWithHF_first hf_attempts_list t5_world_def
        no_groq_world_def example_world_def js_def)

lemma t5_token: "env_truthy (HF_TOKEN t5_world)"
  by (simp add: t5_world_def no_groq_world_def example_world_def env_truthy_def truthy_def
        js_def)

lemma t5_no_key: "generateWithGroq t5_world msgs = ([], [])"
  by (simp add: generateWithGroq_def t5_world_def no_groq_world_def env_truthy_def)

lemma t5_embedding: "fst (embedding_step t5_world q) = [JNum 1, JNum 2, JNum 3]"
  by (simp add: embedding_step_def getHuggingFaceEmbedding_def t5_world_def
        no_groq_world_def example_world_def Let_def)

lemma formatted_Hamilton:
  "encode (formatted (js ''Hamilton'')) = bytes ''0:'' @ [0x22] @ bytes ''Hamilton'' @ [0x22, 0x0A]"
  by (simp add: encode_formatted escape_concat escape_unit_def js_def bytes_def quote_def
        newline_def utf8_def is_high_surrogate_def is_low_surrogate_def)

text \<open>
  The theorem at work. With all models failing, all five are attempted and the text is
  empty; when only the third model answers, the attempts stop there. When only the first
  model of the second family answers, the handler calls the embedding model, the
  collection, the three text-generation models and that model, in this order, without a
  Tier 1 call since the key is absent, and streams the text that model answered.
\<close>

theorem C2_tier_order_witness:
  "attempt_text no_groq_world (CallTextGeneration (js ''bigscience/bloom-560m'') question) = []
   \<and> attempt_text no_groq_world (CallTextGeneration (js ''gpt2'') question) = []
   \<and> attempt_text no_groq_world (CallTextGeneration (js ''distilgpt2'') question) = []
   \<and> attempt_text no_groq_world (CallTextToText (js ''google/flan-t5-base'') question) = []
   \<and> attempt_text no_groq_world (CallTextToText (js ''google/flan-t5-small'') question) = []
   \<and> generateWithHF no_groq_world question = ([], hf_attempts question)
   \<and> generateWithHF third_model_world question
       = (js ''Verstappen'',
          [CallTextGeneration (js ''bigscience/bloom-560m'') question,
           CallTextGeneration (js ''gpt2'') question,
           CallTextGeneration (js ''distilgpt2'') question])
   \<and> CallTextGeneration (js ''gpt2'') question
       \<in> set (butlast (snd (generateWithHF third_model_world question)))
   \<and> attempt_text third_model_world (CallTextGeneration (js ''gpt2'') question) = []
   \<and> length (filter is_groq_call (snd (POST example_world example_request))) \<le> 1
   \<and> validated t5_world example_request question
   \<and> env_truthy (HF_TOKEN t5_world)
   \<and> textToText t5_world (js ''google/flan-t5-base'')
         (handler_prompt t5_world example_request question)
       = Inr (HfValue None (Some (js ''Hamilton'')))
   \<and> attempt_text t5_world
         (CallTextToText (js ''google/flan-t5-base'')
            (handler_prompt t5_world example_request question))
       = js ''Hamilton''
   \<and> snd (POST t5_world example_request)
       = [CallFeatureExtraction (js ''BAAI/bge-small-en-v1.5'') question,
          CallCollectionFind [JNum 1, JNum 2, JNum 3] 10,
          CallTextGeneration (js ''bigscience/bloom-560m'')
            (handler_prompt t5_world example_request question),
          CallTextGeneration (js ''gpt2'')
            (handler_prompt t5_world example_request question),
          CallTextGeneration (js ''distilgpt2'')
            (handler_prompt t5_world example_request question),
          CallTextToText (js ''google/flan-t5-base'')
            (handler_prompt t5_world example_request question)]
   \<and> generated_text_of t5_world example_request question = js ''Hamilton''
   \<and> frames (fst (POST t5_world example_request))
       = [bytes ''0:'' @ [0x22] @ bytes ''Hamilton'' @ [0x22, 0x0A]]"
proof -
  note none = C2_tier_order [of no_groq_world example_request "[]" question]
  note third = C2_tier_order [of third_model_world example_request "[]" question]
  note ex = C2_tier_order [of example_world example_request "[]" question]
  note t5 = C2_tier_order [of t5_world example_request
      "handler_messages t5_world example_request question"
      "handler_prompt t5_world example_request question" question]
  have all_fail: "\<forall>c \<in> set (hf_attempts question). attempt_text no_groq_world c = []"
    by (simp add: example_attempts_fail)
  with none have r1: "generateWithHF no_groq_world question = ([], hf_attempts question)"
    by blast
  have r2: "generateWithHF third_model_world question
       = (js ''Verstappen'',
          [CallTextGeneration (js ''bigscience/bloom-560m'') question,
           CallTextGeneration (js ''gpt2'') question,
           CallTextGeneration (js ''distilgpt2'') question])"
    by (simp add: third_model_generate hf_attempts_list)
  then have mem: "CallTextGeneration (js ''gpt2'') question
       \<in> set (butlast (snd (generateWithHF third_model_world question)))"
    by simp
  with third have r3:
    "attempt_text third_model_world (CallTextGeneration (js ''gpt2'') question) = []"
    by blast
  from ex have r4: "length (filter is_groq_call (snd (POST example_world example_request))) \<le> 1"
    by blast
  have r0:
    "attempt_text no_groq_world (CallTextGeneration (js ''bigscience/bloom-560m'') question) = []"
    "attempt_text no_groq_world (CallTextGeneration (js ''gpt2'') question) = []"
    "attempt_text no_groq_world (CallTextGeneration (js ''distilgpt2'') question) = []"
    "attempt_text no_groq_world (CallTextToText (js ''google/flan-t5-base'') question) = []"
    "attempt_text no_groq_world (CallTextToText (js ''google/flan-t5-small'') question) = []"
    by (rule example_attempts_fail)+
  have v: "validated t5_world example_request question"
    by (rule example_validated)
  note t = t5_token
  have answer: "textToText t5_world (js ''google/flan-t5-base'')
         (handler_prompt t5_world example_request question)
       = Inr (HfValue None (Some (js ''Hamilton'')))"
    by (simp add: t5_world_def)
  from t5 have "\<forall>model. attempt_text t5_world
         (CallTextToText model (handler_prompt t5_world example_request question))
       = (case textToText t5_world model (handler_prompt t5_world example_request question) of
                Inl e \<Rightarrow> []
              | Inr (HfString s) \<Rightarrow> s
              | Inr (HfValue (Some s) first) \<Rightarrow> s
              | Inr (HfValue None (Some s)) \<Rightarrow> s
              | Inr (HfValue None None) \<Rightarrow> [])"
    by (elim conjE) assumption
  then have read: "attempt_text t5_world
         (CallTextToText (js ''google/flan-t5-base'')
            (handler_prompt t5_world example_request question))
       = js ''Hamilton''"
    by (simp only: answer sum.case hf_result.case option.case)
  from t5 v t have "snd (POST t5_world example_request)
          = [CallFeatureExtraction (js ''BAAI/bge-small-en-v1.5'') question]
            @ (if fst (embedding_step t5_world question) = [] then []
               else [CallCollectionFind (fst (embedding_step t5_world question)) 10])
            @ snd (generateWithGroq t5_world (handler_messages t5_world example_request question))
            @ (if fst (generateWithGroq t5_world
                         (handler_messages t5_world example_request question)) = []
               then snd (generateWithHF t5_world
                           (handler_prompt t5_world example_request question)) else [])"
    by blast
  then have calls: "snd (POST t5_world example_request)
       = [CallFeatureExtraction (js ''BAAI/bge-small-en-v1.5'') question,
          CallCollectionFind [JNum 1, JNum 2, JNum 3] 10,
          CallTextGeneration (js ''bigscience/bloom-560m'')
            (handler_prompt t5_world example_request question),
          CallTextGeneration (js ''gpt2'')
            (handler_prompt t5_world example_request question),
          CallTextGeneration (js ''distilgpt2'')
            (handler_prompt t5_world example_request question),
          CallTextToText (js ''google/flan-t5-base'')
            (handler_prompt t5_world example_request question)]"
    by (simp add: t5_embedding t5_no_key t5_generate hf_attempts_list)
  from t5 v t have "generated_text_of t5_world example_request question
          = (if fst (generateWithGroq t5_world
                       (handler_messages t5_world example_request question)) = []
             then fst (generateWithHF t5_world
                         (handler_prompt t5_world example_request question))
             else fst (generateWithGroq t5_world
                         (handler_messages t5_world example_request question)))"
    by blast
  then have gen: "generated_text_of t5_world example_request question = js ''Hamilton''"
    by (simp add: t5_no_key t5_generate)
  have short: "js ''Hamilton'' \<noteq> []" "length (js ''Hamilton'') \<le> 40"
    by (simp_all add: js_def)
  from t5 v t have "frames (fst (POST t5_world example_request))
          = (if generated_text_of t5_world example_request question = []
             then [encode (formatted apology)]
             else map (\<lambda>k. encode (formatted
                        (nth_slice (generated_text_of t5_world example_request question) k)))
                    [0..<slice_count (generated_text_of t5_world example_request question)])"
    by blast
  then have fr: "frames (fst (POST t5_world example_request))
       = [bytes ''0:'' @ [0x22] @ bytes ''Hamilton'' @ [0x22, 0x0A]]"
    by (simp only: gen short(1) if_False slices_short [OF short] formatted_Hamilton)
  show ?thesis
    by (intro conjI) (fact r0 r1 r2 mem r3 r4 v t answer read calls gen fr)+
qed

section \<open>Empty payloads, the round trip and the apology\<close>

lemma empty_frame:
  "encode (formatted []) = bytes ''0:'' @ [0x22, 0x22, 0x0A]"
  by (simp add: encode_formatted escape_concat)

lemma payload_empty_frame: "payload (bytes ''0:'' @ [0x22, 0x22, 0x0A]) = []"
  by (simp add: payload_def bytes_def)

lemma payload_formatted_nonempty: "t \<noteq> [] \<Longrightarrow> payload (encode (formatted t)) \<noteq> []"
  by (simp add: payload_formatted escape_eq_Nil encode_eq_Nil)

lemma utf16_nonempty: "utf16 cp \<noteq> []"
  by (simp add: utf16_def)

lemma decode_eq_Nil: "decode bs = [] \<longleftrightarrow> bs = []"
  by (cases bs) (simp_all add: decode_Nil decode_Cons utf16_nonempty)

text \<open>
  Claim C10. The frame emitter does nothing on the empty string, every slice the chunker
  takes of a text is non-empty, and so every frame \<open>streamText\<close> enqueues, and every frame
  of every response of the handler, has a non-empty payload, which a reader decodes to a
  non-empty string: none of them is the frame \<open>0:""\<close>, the bytes the encoder gives for the
  empty text in its envelope.
\<close>

theorem C10_no_empty_frames:
  fixes c :: ReadableStreamDefaultController and w :: "'n world"
  shows
    "emit c [] = c
     \<and> (\<forall>k < slice_count txt. nth_slice txt k \<noteq> [])
     \<and> (\<forall>f \<in> set (drop (length (queue c)) (queue (streamText c txt emit))).
           payload f \<noteq> [])
     \<and> (\<forall>f \<in> set (frames (fst (POST w req))).
           payload f \<noteq> [] \<and> decode (payload f) \<noteq> []
           \<and> f \<noteq> encode (formatted [])
           \<and> f \<noteq> bytes ''0:'' @ [0x22, 0x22, 0x0A])
     \<and> encode (formatted []) = bytes ''0:'' @ [0x22, 0x22, 0x0A]"
proof (intro conjI)
  show "encode (formatted []) = bytes ''0:'' @ [0x22, 0x22, 0x0A]"
    by (rule empty_frame)
  show "emit c [] = c"
    by (simp add: emit_def truthy_def)
  show "\<forall>k < slice_count txt. nth_slice txt k \<noteq> []"
    by (simp add: nth_slice_nonempty)
  show "\<forall>f \<in> set (drop (length (queue c)) (queue (streamText c txt emit))).
           payload f \<noteq> []"
    by (auto simp: streamText_queue payload_formatted_nonempty nth_slice_nonempty)
  show "\<forall>f \<in> set (frames (fst (POST w req))).
           payload f \<noteq> [] \<and> decode (payload f) \<noteq> []
           \<and> f \<noteq> encode (formatted [])
           \<and> f \<noteq> bytes ''0:'' @ [0x22, 0x22, 0x0A]"
  proof
    fix f
    assume "f \<in> set (frames (fst (POST w req)))"
    then obtain t where "t \<noteq> []" and "f = encode (formatted t)"
      using POST_frame_form by blast
    then have p: "payload f \<noteq> []" by (simp add: payload_formatted_nonempty)
    then have d: "decode (payload f) \<noteq> []" by (simp add: decode_eq_Nil)
    from p have e: "f \<noteq> bytes ''0:'' @ [0x22, 0x22, 0x0A]"
      using payload_empty_frame by auto
    then have "f \<noteq> encode (formatted [])" unfolding empty_frame .
    with p d e show "payload f \<noteq> [] \<and> decode (payload f) \<noteq> []
           \<and> f \<noteq> encode (formatted [])
           \<and> f \<noteq> bytes ''0:'' @ [0x22, 0x22, 0x0A]"
      by (intro conjI)
  qed
qed

lemma no_groq_token: "env_truthy (HF_TOKEN no_groq_world)"
  by (simp add: no_groq_world_def example_world_def env_truthy_def truthy_def js_def)

lemma no_groq_key: "\<not> env_truthy (GROQ_API_KEY no_groq_world)"
  by (simp add: no_groq_world_def env_truthy_def)

lemma generate_empty:
  assumes "env_truthy (HF_TOKEN w)"
    and "fst (generateWithGroq w msgs) = []"
    and "\<forall>c \<in> set (hf_attempts p). attempt_text w c = []"
  shows "fst (generate w msgs p) = []"
  using assms by (simp add: generate_parts case_prod_beta generateWithHF_none)

lemma no_groq_generated:
  "generated_text_of no_groq_world example_request question = []"
  unfolding generated_text_of_def
  by (rule generate_empty)
     (simp_all add: no_groq_token generateWithGroq_no_key no_groq_key example_attempts_fail)

lemma no_groq_frames:
  "frames (fst (POST no_groq_world example_request)) = [encode (formatted apology)]"
  using frames_stream [OF example_validated no_groq_token]
  by (simp add: no_groq_generated)

lemma nth_slice_apology_1: "nth_slice apology 1 \<noteq> []"
  by (rule nth_slice_nonempty) (simp add: slice_count_apology)

text \<open>
  The theorem at the apology: its second slice is non-empty, and the one frame of the
  response that carries it has a non-empty payload.
\<close>

theorem C10_no_empty_frames_witness:
  "(1::nat) < slice_count apology
   \<and> nth_slice apology 1 \<noteq> []
   \<and> encode (formatted (nth_slice apology 1))
       \<in> set (drop (length (queue new_controller))
                 (queue (streamText new_controller apology emit)))
   \<and> payload (encode (formatted (nth_slice apology 1))) \<noteq> []
   \<and> encode (formatted apology) \<in> set (frames (fst (POST no_groq_world example_request)))
   \<and> payload (encode (formatted apology)) \<noteq> []
   \<and> decode (payload (encode (formatted apology))) \<noteq> []
   \<and> encode (formatted apology) \<noteq> bytes ''0:'' @ [0x22, 0x22, 0x0A]"
proof -
  note fact = C10_no_empty_frames [of new_controller apology no_groq_world example_request]
  have h1: "(1::nat) < slice_count apology" by (simp add: slice_count_apology)
  have h2: "encode (formatted apology)
            \<in> set (frames (fst (POST no_groq_world example_request)))"
    by (simp add: no_groq_frames)
  have h3: "encode (formatted (nth_slice apology 1))
       \<in> set (drop (length (queue new_controller))
                 (queue (streamText new_controller apology emit)))"
    by (simp add: streamText_queue slice_count_apology upt_2)
  from fact h1 have c1: "nth_slice apology 1 \<noteq> []" by blast
  from fact h3 have c3: "payload (encode (formatted (nth_slice apology 1))) \<noteq> []" by blast
  from fact h2 have c2: "payload (encode (formatted apology)) \<noteq> []
      \<and> decode (payload (encode (formatted apology))) \<noteq> []
      \<and> encode (formatted apology) \<noteq> encode (formatted [])
      \<and> encode (formatted apology) \<noteq> bytes ''0:'' @ [0x22, 0x22, 0x0A]" by blast
  then have c2a: "payload (encode (formatted apology)) \<noteq> []"
    and c2b: "decode (payload (encode (formatted apology))) \<noteq> []"
    and c2c: "encode (formatted apology) \<noteq> bytes ''0:'' @ [0x22, 0x22, 0x0A]"
    by simp_all
  show ?thesis
    by (intro conjI) (fact h1 c1 h3 c3 h2 c2a c2b c2c)+
qed

lemma backslash_generated:
  "generated_text_of backslash_world example_request question = [backslash, letter_n]"
  by (simp add: generated_text_of_def generate_def backslash_world_def example_world_def
        generateWithGroq_def env_truthy_def truthy_def js_def)

lemma backslash_token: "env_truthy (HF_TOKEN backslash_world)"
  by (simp add: backslash_world_def example_world_def env_truthy_def truthy_def js_def)

lemma backslash_frames:
  "frames (fst (POST backslash_world example_request))
   = [encode (formatted [backslash, letter_n])]"
  using frames_stream [OF example_validated backslash_token]
  by (simp add: backslash_generated slices_short)

lemma newline_frames:
  "frames (fst (POST newline_world example_request)) = [encode (formatted [newline])]"
proof -
  have tok: "env_truthy (HF_TOKEN newline_world)"
    by (simp add: newline_world_def example_world_def env_truthy_def truthy_def js_def)
  have gen: "generated_text_of newline_world example_request question = [newline]"
    by (simp add: generated_text_of_def generate_def newline_world_def example_world_def
        generateWithGroq_def env_truthy_def truthy_def js_def)
  show ?thesis
    using frames_stream [OF example_validated tok]
    by (simp add: gen slices_short)
qed

lemma formatted_backslash_n:
  "formatted [backslash, letter_n] = js ''0:'' @ [quote, backslash, letter_n, quote, newline]"
  by (simp add: formatted_def escape_concat escape_unit_def units_distinct
        units_distinct [symmetric])

lemma formatted_newline:
  "formatted [newline] = js ''0:'' @ [quote, backslash, letter_n, quote, newline]"
  by (simp add: formatted_def escape_concat escape_unit_def units_distinct
        units_distinct [symmetric])

lemma encode_backslash_n_frame:
  "encode (js ''0:'' @ [quote, backslash, letter_n, quote, newline])
   = bytes ''0:'' @ [0x22, 0x5C, 0x6E, 0x22, 0x0A]"
  by (simp add: js_def bytes_def quote_def backslash_def letter_n_def newline_def utf8_def
        is_high_surrogate_def is_low_surrogate_def)

lemma decode_backslash_n: "decode [0x5C, 0x6E] = [backslash, letter_n]"
  by (simp add: decode_ascii_Cons decode_Nil backslash_def letter_n_def)

text \<open>
  Claim C1, at a text the round trip loses. The escaping leaves a backslash as it is, so
  the generated text of two code units, a backslash and the letter n, is framed exactly as
  the text of one line feed is: the same bytes are enqueued. Read back (payload, UTF-8
  decoding, unescaping), the frame gives the line feed, not the text that was generated.
  (For an ASCII text without a backslash the round trip holds, see
  \<open>reconstruct_streamText\<close>.)
\<close>

theorem C1_backslash_breaks_round_trip:
  "generated_text_of backslash_world example_request question = [backslash, letter_n]
   \<and> frames (fst (POST backslash_world example_request))
       = [encode (js ''0:'' @ [quote, backslash, letter_n, quote, newline])]
   \<and> frames (fst (POST backslash_world example_request))
       = [bytes ''0:'' @ [0x22, 0x5C, 0x6E, 0x22, 0x0A]]
   \<and> reconstruct (frames (fst (POST backslash_world example_request))) = [newline]
   \<and> reconstruct (frames (fst (POST backslash_world example_request)))
       \<noteq> generated_text_of backslash_world example_request question
   \<and> frames (fst (POST newline_world example_request))
       = frames (fst (POST backslash_world example_request))"
proof -
  have "payload (bytes ''0:'' @ [0x22, 0x5C, 0x6E, 0x22, 0x0A]) = [0x5C, 0x6E]"
    by (simp add: payload_def bytes_def)
  then have r: "reconstruct [bytes ''0:'' @ [0x22, 0x5C, 0x6E, 0x22, 0x0A]] = [newline]"
    by (simp add: reconstruct_def decode_backslash_n units_distinct
          units_distinct [symmetric])
  have a: "generated_text_of backslash_world example_request question
           = [backslash, letter_n]"
    by (rule backslash_generated)
  have b0: "frames (fst (POST backslash_world example_request))
       = [encode (js ''0:'' @ [quote, backslash, letter_n, quote, newline])]"
    by (simp only: backslash_frames formatted_backslash_n)
  have b: "frames (fst (POST backslash_world example_request))
       = [bytes ''0:'' @ [0x22, 0x5C, 0x6E, 0x22, 0x0A]]"
    by (simp only: b0 encode_backslash_n_frame)
  have c: "reconstruct (frames (fst (POST backslash_world example_request))) = [newline]"
    by (simp only: b r)
  have d: "reconstruct (frames (fst (POST backslash_world example_request)))
       \<noteq> generated_text_of backslash_world example_request question"
    by (simp add: a c)
  have e: "frames (fst (POST newline_world example_request))
       = frames (fst (POST backslash_world example_request))"
    by (simp only: newline_frames backslash_frames formatted_newline formatted_backslash_n)
  show ?thesis
    by (intro conjI) (fact a b0 b c d e)+
qed

lemma formatted_apology:
  "formatted apology = js ''0:'' @ [quote] @ apology @ [quote, newline]"
  by (simp add: formatted_def escape_plain apology_plain)

lemma encoded_apology:
  "encode (formatted apology) = bytes ''0:'' @ [0x22] @ map ucast apology @ [0x22, 0x0A]"
  by (rule encode_plain_ascii) (simp_all add: apology_ascii apology_plain)

lemma reconstruct_apology: "reconstruct [encode (formatted apology)] = apology"
proof -
  have e: "escape apology = apology"
    by (simp add: escape_plain apology_plain)
  have "unescape (escape apology) = apology"
    by (simp add: unescape_escape apology_plain)
  then have u: "unescape apology = apology"
    by (simp only: e)
  have "payload (encode (formatted apology)) = encode apology"
    by (simp only: payload_formatted e)
  moreover have "decode (encode apology) = apology"
    by (simp add: decode_encode_ascii apology_ascii)
  ultimately show ?thesis
    by (simp add: reconstruct_def u)
qed

lemma apology_slices:
  "queue (streamText new_controller apology emit)
   = [encode (formatted (take 40 apology)), encode (formatted (drop 40 apology))]"
proof -
  have "[0..<2] = [0, Suc 0]" by (simp add: upt_rec)
  moreover have "length apology = 59" by (simp add: apology_def js_def)
  ultimately show ?thesis
    by (simp add: streamText_queue slice_count_apology new_controller_def nth_slice_def
          slice_js_def chunkSize_def)
qed

text \<open>
  Claim C3 says the apology is chunked like any generated text. With no Tier 1 credential
  and every Tier 2 model failing, the response has status 200 and carries the apology as
  one frame, the encoding of its 59 code units in the envelope; \<open>streamText\<close> would have
  cut it into a frame of 40 and one of 19.
\<close>

theorem C3_apology_not_chunked:
  "\<not> env_truthy (GROQ_API_KEY no_groq_world)
   \<and> generated_text_of no_groq_world example_request question = []
   \<and> status (fst (POST no_groq_world example_request)) = 200
   \<and> frames (fst (POST no_groq_world example_request)) = [encode (formatted apology)]
   \<and> queue (streamText new_controller apology emit)
       = [encode (formatted (take 40 apology)), encode (formatted (drop 40 apology))]
   \<and> frames (fst (POST no_groq_world example_request))
       \<noteq> queue (streamText new_controller apology emit)"
proof -
  have st: "status (fst (POST no_groq_world example_request)) = 200"
    using POST_stream [OF example_validated no_groq_token]
    by (simp add: stream_response_def)
  have ne: "frames (fst (POST no_groq_world example_request))
       \<noteq> queue (streamText new_controller apology emit)"
    by (simp add: no_groq_frames apology_slices)
  show ?thesis
    by (intro conjI)
       (fact no_groq_key no_groq_generated st no_groq_frames apology_slices ne)+
qed

text \<open>
  Claim C3, as the handler has it. For a validated request with the Hugging Face token
  present, when Tier 1 yields the empty text and every Tier 2 attempt yields the empty
  text, the response has status 200 and its stream, closed, holds exactly one frame: the
  apology, written by the frame emitter itself, with the usual envelope and nothing to
  escape, encoded byte for byte since the apology is ASCII. Read back, the stream gives
  exactly the apology.
\<close>

theorem C3_apology_single_frame:
  fixes w :: "'n world"
  assumes "validated w req q"
    and "env_truthy (HF_TOKEN w)"
    and "fst (generateWithGroq w (handler_messages w req q)) = []"
    and "\<forall>c \<in> set (hf_attempts (handler_prompt w req q)). attempt_text w c = []"
  shows "status (fst (POST w req)) = 200
     \<and> body (fst (POST w req))
         = Stream \<lparr>queue = [encode (formatted apology)], is_closed = True\<rparr>
     \<and> frames (fst (POST w req)) = queue (emit new_controller apology)
     \<and> formatted apology = js ''0:'' @ [quote] @ apology @ [quote, newline]
     \<and> encode (formatted apology)
         = bytes ''0:'' @ [0x22] @ map ucast apology @ [0x22, 0x0A]
     \<and> reconstruct (frames (fst (POST w req))) = apology"
proof -
  have gen: "generated_text_of w req q = []"
    unfolding generated_text_of_def using assms(2-4) by (rule generate_empty)
  have fr: "frames (fst (POST w req)) = [encode (formatted apology)]"
    using frames_stream [OF assms(1,2)] by (simp add: gen)
  have st: "status (fst (POST w req)) = 200"
    using POST_stream [OF assms(1,2)] by (simp add: stream_response_def)
  have "\<exists>c. body (fst (POST w req)) = Stream c \<and> is_closed c"
    using POST_stream [OF assms(1,2)] by (simp add: stream_response_def start_closed)
  then obtain c where c: "body (fst (POST w req)) = Stream c" "is_closed c" by blast
  with fr have "queue c = [encode (formatted apology)]" by (simp add: frames_def)
  with c have bd: "body (fst (POST w req))
      = Stream \<lparr>queue = [encode (formatted apology)], is_closed = True\<rparr>"
    by (cases c) simp
  have em: "frames (fst (POST w req)) = queue (emit new_controller apology)"
    by (simp add: fr queue_emit apology_nonempty new_controller_def)
  have rc: "reconstruct (frames (fst (POST w req))) = apology"
    by (simp only: fr reconstruct_apology)
  show ?thesis
    by (intro conjI) (fact st bd em formatted_apology encoded_apology rc)+
qed

text \<open>
  The theorem in the world without the Tier 1 credential where all models fail.
\<close>

theorem C3_apology_single_frame_witness:
  "validated no_groq_world example_request question
   \<and> env_truthy (HF_TOKEN no_groq_world)
   \<and> fst (generateWithGroq no_groq_world
            (handler_messages no_groq_world example_request question)) = []
   \<and> status (fst (POST no_groq_world example_request)) = 200
   \<and> body (fst (POST no_groq_world example_request))
       = Stream \<lparr>queue = [encode (formatted apology)], is_closed = True\<rparr>
   \<and> reconstruct (frames (fst (POST no_groq_world example_request))) = apology"
proof -
  have h1: "validated no_groq_world example_request question"
    by (rule example_validated)
  have h2: "env_truthy (HF_TOKEN no_groq_world)"
    by (rule no_groq_token)
  have h3: "fst (generateWithGroq no_groq_world
            (handler_messages no_groq_world example_request question)) = []"
    by (simp add: generateWithGroq_no_key no_groq_key)
  have h4: "\<forall>c \<in> set (hf_attempts (handler_prompt no_groq_world example_request question)).
              attempt_text no_groq_world c = []"
    by (simp add: example_attempts_fail)
  note fact = C3_apology_single_frame [OF h1 h2 h3 h4]
  from h1 h2 h3 fact show ?thesis by blast
qed

section \<open>Validation and retrieval\<close>

lemma no_user_message_body:
  \<open>no_user_message =
     \<lparr>status = 400, headers = [(js ''Content-Type'', js ''application/json'')],
      body = Json (js ''{"error":"No user message provided."}'')\<rparr>\<close>
  by (simp add: no_user_message_def json_response_def js_def quote_def)

text \<open>
  Claim C4. When the array of messages is empty, or the content of the last message is a
  string that trims to the empty string (or a value that is not a string and whose string
  form trims to the empty string), the handler answers with status 400 and the body
  \<open>{"error":"No user message provided."}\<close>, and calls no collaborator: no embedding, no
  similarity search, no generation.
\<close>

theorem C4_no_user_message:
  fixes w :: "'n world"
  assumes "ms = []
     \<or> (content (last ms) = JStr s \<and> trim s = [])
     \<or> (content (last ms) \<noteq> JUndefined \<and> content (last ms) \<noteq> JNull
        \<and> (\<forall>t. content (last ms) \<noteq> JStr t)
        \<and> toString w (content (last ms)) = Inr s \<and> trim s = [])"
  shows \<open>POST w (Messages ms) = (no_user_message, [])
     \<and> status (fst (POST w (Messages ms))) = 400
     \<and> body (fst (POST w (Messages ms))) = Json (js ''{"error":"No user message provided."}'')
     \<and> filter is_embedding_call (snd (POST w (Messages ms))) = []
     \<and> filter is_find_call (snd (POST w (Messages ms))) = []
     \<and> filter is_groq_call (snd (POST w (Messages ms))) = []\<close>
proof -
  have "latestMessage w (Messages ms) = Inr None
        \<or> latestMessage w (Messages ms) = Inr (Some [])"
    using assms by (cases "content (last ms)") (auto simp: latestMessage_def)
  then have "POST w (Messages ms) = (no_user_message, [])"
    by (rule POST_rejected)
  then show ?thesis by (simp add: no_user_message_body)
qed

text \<open>
  The theorem at the empty conversation and at a last message of two spaces.
\<close>

theorem C4_no_user_message_witness:
  \<open>POST example_world (Messages []) = (no_user_message, [])
   \<and> content (last [\<lparr>role = User, content = JStr (js ''  '')\<rparr>]) = (JStr (js ''  '') :: nat jsval)
   \<and> trim (js ''  '') = []
   \<and> POST example_world blank_request = (no_user_message, [])
   \<and> status (fst (POST example_world blank_request)) = 400
   \<and> body (fst (POST example_world blank_request))
       = Json (js ''{"error":"No user message provided."}'')\<close>
proof -
  have h1: "content (last [\<lparr>role = User, content = JStr (js ''  '')\<rparr>])
            = (JStr (js ''  '') :: nat jsval)"
    by simp
  have h2: "trim (js ''  '') = []"
    by (simp add: trim_def js_def is_whitespace_def)
  note empty = C4_no_user_message [of "[]" "[]" example_world]
  note blank = C4_no_user_message
    [of "[\<lparr>role = User, content = JStr (js ''  '')\<rparr>]" "js ''  ''" example_world]
  from empty have c1: "POST example_world (Messages []) = (no_user_message, [])"
    by simp
  from blank h1 h2 have c2:
    \<open>POST example_world blank_request = (no_user_message, [])
     \<and> status (fst (POST example_world blank_request)) = 400
     \<and> body (fst (POST example_world blank_request))
         = Json (js ''{"error":"No user message provided."}'')\<close>
    unfolding blank_request_def by blast
  from h1 h2 c1 c2 show ?thesis by blast
qed

lemma hf_attempts_not_find: "c \<in> set (hf_attempts p) \<Longrightarrow> \<not> is_find_call c"
  by (auto simp: hf_attempts_def)

lemma generateWithHF_not_find: "filter is_find_call (snd (generateWithHF w p)) = []"
proof -
  have "set (snd (generateWithHF w p)) \<subseteq> set (hf_attempts p)"
    using generateWithHF_prefix [of w p] set_take_subset by metis
  then show ?thesis
    using hf_attempts_not_find by (auto simp: filter_empty_conv)
qed

lemma generateWithGroq_not_find: "filter is_find_call (snd (generateWithGroq w msgs)) = []"
  by (simp add: generateWithGroq_def Let_def)

lemma generate_not_find: "filter is_find_call (snd (generate w msgs p)) = []"
  by (simp add: generate_parts case_prod_beta generateWithGroq_not_find
        generateWithHF_not_find)

lemma POST_find_calls:
  assumes "validated w req q"
  shows "filter is_find_call (snd (POST w req))
         = (if fst (embedding_step w q) = [] then []
            else [CallCollectionFind (fst (embedding_step w q)) 10])"
proof (cases "env_truthy (HF_TOKEN w)")
  case False
  with assms show ?thesis
    by (simp add: POST_no_token embedding_step_calls retrieval_step_calls)
next
  case True
  with assms show ?thesis
    by (simp add: POST_stream embedding_step_calls retrieval_step_calls generate_not_find)
qed

lemma POST_find_calls_rejected:
  "\<not> (\<exists>q. validated w req q) \<Longrightarrow> snd (POST w req) = []"
proof (cases w req rule: POST_cases)
  case (throws e)
  then show ?thesis by (simp add: POST_throws)
next
  case rejected
  then show ?thesis by (simp add: POST_rejected)
next
  case (accepted q)
  moreover assume "\<not> (\<exists>q. validated w req q)"
  ultimately show ?thesis by blast
qed

lemma POST_status_validated:
  assumes "validated w req q"
  shows "status (fst (POST w req)) = (if env_truthy (HF_TOKEN w) then 200 else 400)"
proof (cases "env_truthy (HF_TOKEN w)")
  case False
  with assms show ?thesis
    by (simp add: POST_no_token missing_hf_token_def json_response_def)
next
  case True
  with assms show ?thesis
    by (simp add: POST_stream stream_response_def)
qed

text \<open>
  Claim C6. With the empty embedding the retrieval calls nothing and gives the empty
  context. With a non-empty embedding it issues exactly one similarity search, with that
  embedding and limit 10; a failing search gives the empty context, a successful one the
  serialised texts of the documents. In the handler, a validated request has exactly that
  one search (none for the empty embedding) among its calls, and a failing search leaves
  the context empty and never gives the 500 response.
\<close>

theorem C6_context_retriever:
  fixes w :: "'n world"
  shows
    "retrieval_step w [] = ([], [])
     \<and> (v \<noteq> [] \<longrightarrow> snd (retrieval_step w v) = [CallCollectionFind v 10])
     \<and> (v \<noteq> [] \<and> collection_find w v 10 = Inl e
          \<longrightarrow> retrieval_step w v = ([], [CallCollectionFind v 10]))
     \<and> (v \<noteq> [] \<and> collection_find w v 10 = Inr docs
          \<longrightarrow> fst (retrieval_step w v)
              = JSON_stringify w (JArr (map JStr (map doc_text docs))))
     \<and> (validated w req q \<longrightarrow>
          filter is_find_call (snd (POST w req))
          = (if fst (embedding_step w q) = [] then []
             else [CallCollectionFind (fst (embedding_step w q)) 10]))
     \<and> (validated w req q \<and> fst (embedding_step w q) = []
          \<longrightarrow> handler_context w q = [])
     \<and> (validated w req q \<and> collection_find w (fst (embedding_step w q)) 10 = Inl e
          \<longrightarrow> handler_context w q = [] \<and> status (fst (POST w req)) \<noteq> 500)"
proof (intro conjI)
  show "retrieval_step w [] = ([], [])"
    by (simp add: retrieval_step_def)
  show "v \<noteq> [] \<longrightarrow> snd (retrieval_step w v) = [CallCollectionFind v 10]"
    by (simp add: retrieval_step_calls)
  show "v \<noteq> [] \<and> collection_find w v 10 = Inl e
          \<longrightarrow> retrieval_step w v = ([], [CallCollectionFind v 10])"
    by (simp add: retrieval_step_def)
  show "v \<noteq> [] \<and> collection_find w v 10 = Inr docs
          \<longrightarrow> fst (retrieval_step w v)
              = JSON_stringify w (JArr (map JStr (map doc_text docs)))"
    by (simp add: retrieval_step_def comp_def)
  show "validated w req q \<longrightarrow>
          filter is_find_call (snd (POST w req))
          = (if fst (embedding_step w q) = [] then []
             else [CallCollectionFind (fst (embedding_step w q)) 10])"
    using POST_find_calls by blast
  show "validated w req q \<and> fst (embedding_step w q) = []
          \<longrightarrow> handler_context w q = []"
    by (simp add: handler_context_def retrieval_step_def)
  show "validated w req q \<and> collection_find w (fst (embedding_step w q)) 10 = Inl e
          \<longrightarrow> handler_context w q = [] \<and> status (fst (POST w req)) \<noteq> 500"
  proof (intro impI, elim conjE)
    assume v: "validated w req q"
      and f: "collection_find w (fst (embedding_step w q)) 10 = Inl e"
    from f have "handler_context w q = []"
      by (simp add: handler_context_def retrieval_step_def)
    moreover from v have "status (fst (POST w req)) \<noteq> 500"
      by (simp add: POST_status_validated)
    ultimately show "handler_context w q = [] \<and> status (fst (POST w req)) \<noteq> 500"
      by blast
  qed
qed

lemma example_embedding: "fst (embedding_step example_world q) = [JNum 1, JNum 2, JNum 3]"
  by (simp add: embedding_step_def getHuggingFaceEmbedding_def example_world_def)

lemma failing_store_embedding:
  "fst (embedding_step failing_store_world q) = [JNum 1, JNum 2, JNum 3]"
  by (simp add: embedding_step_def getHuggingFaceEmbedding_def failing_store_world_def
        example_world_def)

text \<open>
  The theorem with a vector store that times out, and with one that answers.
\<close>

theorem C6_context_retriever_witness:
  "[JNum 1, JNum 2, JNum 3] \<noteq> ([] :: nat jsval list)
   \<and> collection_find failing_store_world [JNum 1, JNum 2, JNum 3] 10
       = Inl (Error (js ''timeout''))
   \<and> retrieval_step failing_store_world [JNum 1, JNum 2, JNum 3]
       = ([], [CallCollectionFind [JNum 1, JNum 2, JNum 3] 10])
   \<and> validated failing_store_world example_request question
   \<and> filter is_find_call (snd (POST failing_store_world example_request))
       = [CallCollectionFind [JNum 1, JNum 2, JNum 3] 10]
   \<and> handler_context failing_store_world question = []
   \<and> status (fst (POST failing_store_world example_request)) \<noteq> 500
   \<and> fst (retrieval_step example_world [JNum 1, JNum 2, JNum 3]) = js ''[...]''"
proof -
  note fail = C6_context_retriever
    [of failing_store_world "[JNum 1, JNum 2, JNum 3]" "Error (js ''timeout'')" _
        example_request question]
  note good = C6_context_retriever
    [of example_world "[JNum 1, JNum 2, JNum 3]" _
        "[\<lparr>doc_text = js ''doc one''\<rparr>, \<lparr>doc_text = js ''doc two''\<rparr>]"]
  have h1: "[JNum 1, JNum 2, JNum 3] \<noteq> ([] :: nat jsval list)" by simp
  have h2: "collection_find failing_store_world [JNum 1, JNum 2, JNum 3] 10
       = Inl (Error (js ''timeout''))"
    by (simp add: failing_store_world_def)
  have h3: "validated failing_store_world example_request question"
    by (rule example_validated)
  have h4: "collection_find example_world [JNum 1, JNum 2, JNum 3] 10
       = Inr [\<lparr>doc_text = js ''doc one''\<rparr>, \<lparr>doc_text = js ''doc two''\<rparr>]"
    by (simp add: example_world_def)
  from fail h1 h2 have c1: "retrieval_step failing_store_world [JNum 1, JNum 2, JNum 3]
       = ([], [CallCollectionFind [JNum 1, JNum 2, JNum 3] 10])"
    by blast
  from fail h3 have c2: "filter is_find_call (snd (POST failing_store_world example_request))
       = [CallCollectionFind [JNum 1, JNum 2, JNum 3] 10]"
    by (simp add: failing_store_embedding)
  from fail h3 h2 have c3: "handler_context failing_store_world question = []
       \<and> status (fst (POST failing_store_world example_request)) \<noteq> 500"
    by (simp add: failing_store_embedding)
  from good h1 h4 have c4:
    "fst (retrieval_step example_world [JNum 1, JNum 2, JNum 3]) = js ''[...]''"
    by (simp add: example_world_def)
  from h1 h2 h3 c1 c2 c3 c4 show ?thesis by blast
qed

section \<open>Embedding shapes, credentials and the assembled prompt\<close>

lemma embedding_step_result:
  "fst (embedding_step w q)
   = (case featureExtraction w (js ''BAAI/bge-small-en-v1.5'') q of
        Inl e \<Rightarrow> []
      | Inr response \<Rightarrow> embedding_of_response response)"
  by (simp add: embedding_step_def getHuggingFaceEmbedding_def Let_def split: sum.splits)

lemma flat_numeric_as_is: "is_flat_numeric (JArr xs) \<Longrightarrow> embedding_of_response (JArr xs) = xs"
  by (cases xs) simp_all

lemma other_shape_empty:
  "\<not> isArray r \<Longrightarrow> \<not> is_mapping r \<Longrightarrow> embedding_of_response r = []"
  by (cases r) simp_all

text \<open>
  Claim C5 says every response that is not a flat numeric sequence, a batch or a mapping
  yields the empty vector. A sequence holding one string is none of the three, and the
  embedding step returns its element: an array is an object, so the third case of
  \<open>getHuggingFaceEmbedding\<close> takes its values.
\<close>

theorem C5_sequence_of_strings_returned:
  "\<not> is_flat_numeric (JArr [JStr (js ''a'')] :: nat jsval)
   \<and> \<not> is_batch (JArr [JStr (js ''a'')] :: nat jsval)
   \<and> \<not> is_mapping (JArr [JStr (js ''a'')] :: nat jsval)
   \<and> featureExtraction strings_world (js ''BAAI/bge-small-en-v1.5'') question
       = Inr (JArr [JStr (js ''a'')])
   \<and> fst (embedding_step strings_world question) = [JStr (js ''a'')]
   \<and> fst (embedding_step strings_world question) \<noteq> []"
  by (simp add: embedding_step_result strings_world_def)

text \<open>
  Claim C5, as the code has it. The embedding step makes one call and always returns a
  sequence: the empty one when the call throws, and otherwise the normalised response. A
  flat numeric sequence is returned as it is; a sequence whose first element is a sequence
  yields that first element; a mapping yields its values in enumeration order; a response
  that is neither a sequence nor a mapping (a number, a string, a boolean, null,
  undefined) yields the empty sequence; a non-empty sequence whose first element is
  neither a number nor a sequence is returned with its own elements.
\<close>

theorem C5_embedding_shapes:
  fixes w :: "'n world"
  shows
    "snd (embedding_step w q) = [CallFeatureExtraction (js ''BAAI/bge-small-en-v1.5'') q]
     \<and> (featureExtraction w (js ''BAAI/bge-small-en-v1.5'') q = Inl e
          \<longrightarrow> fst (embedding_step w q) = [])
     \<and> (featureExtraction w (js ''BAAI/bge-small-en-v1.5'') q = Inr r
          \<longrightarrow> fst (embedding_step w q) = embedding_of_response r)
     \<and> (is_flat_numeric (JArr xs) \<longrightarrow> embedding_of_response (JArr xs) = xs)
     \<and> embedding_of_response (JArr (JArr first # rest)) = first
     \<and> embedding_of_response (JObj props) = map snd props
     \<and> (\<not> isArray r \<and> \<not> is_mapping r \<longrightarrow> embedding_of_response r = [])
     \<and> (xs \<noteq> [] \<and> \<not> is_number (hd xs) \<and> \<not> isArray (hd xs)
          \<longrightarrow> embedding_of_response (JArr xs) = xs)"
proof (intro conjI)
  show "snd (embedding_step w q) = [CallFeatureExtraction (js ''BAAI/bge-small-en-v1.5'') q]"
    by (rule embedding_step_calls)
  show "featureExtraction w (js ''BAAI/bge-small-en-v1.5'') q = Inl e
          \<longrightarrow> fst (embedding_step w q) = []"
    by (simp add: embedding_step_result)
  show "featureExtraction w (js ''BAAI/bge-small-en-v1.5'') q = Inr r
          \<longrightarrow> fst (embedding_step w q) = embedding_of_response r"
    by (simp add: embedding_step_result)
  show "is_flat_numeric (JArr xs) \<longrightarrow> embedding_of_response (JArr xs) = xs"
    by (rule impI) (rule flat_numeric_as_is)
  show "embedding_of_response (JArr (JArr first # rest)) = first"
    by simp
  show "embedding_of_response (JObj props) = map snd props"
    by simp
  show "\<not> isArray r \<and> \<not> is_mapping r \<longrightarrow> embedding_of_response r = []"
    using other_shape_empty by blast
  show "xs \<noteq> [] \<and> \<not> is_number (hd xs) \<and> \<not> isArray (hd xs)
          \<longrightarrow> embedding_of_response (JArr xs) = xs"
    by simp
qed

text \<open>
  The theorem at a flat vector, a string, a batch and a mapping.
\<close>

theorem C5_embedding_shapes_witness:
  "featureExtraction example_world (js ''BAAI/bge-small-en-v1.5'') question
     = Inr (JArr [JNum 1, JNum 2, JNum 3])
   \<and> is_flat_numeric (JArr [JNum 1, JNum 2, JNum (3::nat)])
   \<and> fst (embedding_step example_world question) = [JNum 1, JNum 2, JNum 3]
   \<and> \<not> isArray (JStr (js ''oops'') :: nat jsval)
   \<and> \<not> is_mapping (JStr (js ''oops'') :: nat jsval)
   \<and> embedding_of_response (JStr (js ''oops'') :: nat jsval) = []
   \<and> embedding_of_response (JArr [JArr [JNum 1, JNum 2], JArr [JNum (3::nat)]])
       = [JNum 1, JNum 2]
   \<and> embedding_of_response (JObj [(js ''0'', JNum 1), (js ''1'', JNum (2::nat))])
       = [JNum 1, JNum 2]"
proof -
  note ex = C5_embedding_shapes
    [of example_world question _ "JArr [JNum 1, JNum 2, JNum 3]" "[JNum 1, JNum 2, JNum 3]"]
  note other = C5_embedding_shapes [of example_world question _ "JStr (js ''oops'')"]
  have h1: "featureExtraction example_world (js ''BAAI/bge-small-en-v1.5'') question
     = Inr (JArr [JNum 1, JNum 2, JNum 3])"
    by (simp add: example_world_def)
  have h2: "is_flat_numeric (JArr [JNum 1, JNum 2, JNum (3::nat)])" by simp
  have h3: "\<not> isArray (JStr (js ''oops'') :: nat jsval)
            \<and> \<not> is_mapping (JStr (js ''oops'') :: nat jsval)" by simp
  from ex h1 h2 have c1: "fst (embedding_step example_world question)
      = [JNum 1, JNum 2, JNum 3]"
    by metis
  from other h3 have c2: "embedding_of_response (JStr (js ''oops'') :: nat jsval) = []"
    by blast
  have c3: "embedding_of_response (JArr [JArr [JNum 1, JNum 2], JArr [JNum (3::nat)]])
       = [JNum 1, JNum 2]"
    using C5_embedding_shapes [of example_world question _ _ _ "[JNum 1, JNum 2]"
        "[JArr [JNum 3]]"]
    by blast
  have c4: "embedding_of_response (JObj [(js ''0'', JNum 1), (js ''1'', JNum (2::nat))])
       = [JNum 1, JNum 2]"
    by simp
  from h1 h2 h3 c1 c2 c3 c4 show ?thesis by blast
qed

lemma missing_hf_token_body:
  \<open>missing_hf_token =
     \<lparr>status = 400, headers = [(js ''Content-Type'', js ''application/json'')],
      body = Json (js ''{"error":"Missing HF_TOKEN in environment."}'')\<rparr>\<close>
  by (simp add: missing_hf_token_def json_response_def js_def quote_def)

lemma POST_no_token_calls:
  "validated w req q \<Longrightarrow> \<not> env_truthy (HF_TOKEN w) \<Longrightarrow>
   snd (POST w req)
   = [CallFeatureExtraction (js ''BAAI/bge-small-en-v1.5'') q]
     @ (if fst (embedding_step w q) = [] then []
        else [CallCollectionFind (fst (embedding_step w q)) 10])"
  by (simp add: POST_no_token embedding_step_calls retrieval_step_calls)

lemma POST_token_calls:
  "validated w req q \<Longrightarrow> env_truthy (HF_TOKEN w) \<Longrightarrow>
   snd (POST w req)
   = [CallFeatureExtraction (js ''BAAI/bge-small-en-v1.5'') q]
     @ (if fst (embedding_step w q) = [] then []
        else [CallCollectionFind (fst (embedding_step w q)) 10])
     @ snd (generate w (handler_messages w req q) (handler_prompt w req q))"
  by (simp add: POST_stream embedding_step_calls retrieval_step_calls)

lemma generate_no_key:
  "env_truthy (HF_TOKEN w) \<Longrightarrow> \<not> env_truthy (GROQ_API_KEY w) \<Longrightarrow>
   generate w msgs p = generateWithHF w p"
  by (simp add: generate_def truthy_def)

lemma no_hf_token_absent: "\<not> env_truthy (HF_TOKEN no_hf_token_world)"
  by (simp add: no_hf_token_world_def env_truthy_def)

lemma no_hf_token_key: "env_truthy (GROQ_API_KEY no_hf_token_world)"
  by (simp add: no_hf_token_world_def example_world_def env_truthy_def truthy_def js_def)

lemma no_hf_token_groq:
  "fst (generateWithGroq no_hf_token_world msgs) = js ''Max Verstappen.''"
  using no_hf_token_key
  by (simp add: generateWithGroq_def Let_def no_hf_token_world_def example_world_def)

lemma no_hf_token_embedding:
  "fst (embedding_step no_hf_token_world q) = [JNum 1, JNum 2, JNum 3]"
  by (simp add: embedding_step_def getHuggingFaceEmbedding_def no_hf_token_world_def
        example_world_def)

text \<open>
  Claim C8 says a missing credential only degrades the pipeline while another provider is
  available. Without \<open>HF_TOKEN\<close>, and with the Groq key present and a Groq endpoint that
  would answer, the validated request still ends with status 400 and the body
  \<open>{"error":"Missing HF_TOKEN in environment."}\<close>: the handler calls the embedding model and
  the collection and nothing else, Groq is never called and no frame is written.
\<close>

theorem C8_tier1_available_still_400:
  \<open>env_truthy (GROQ_API_KEY no_hf_token_world)
   \<and> \<not> env_truthy (HF_TOKEN no_hf_token_world)
   \<and> validated no_hf_token_world example_request question
   \<and> fst (generateWithGroq no_hf_token_world
            (handler_messages no_hf_token_world example_request question))
       = js ''Max Verstappen.''
   \<and> status (fst (POST no_hf_token_world example_request)) = 400
   \<and> body (fst (POST no_hf_token_world example_request))
       = Json (js ''{"error":"Missing HF_TOKEN in environment."}'')
   \<and> filter is_groq_call (snd (POST no_hf_token_world example_request)) = []
   \<and> snd (POST no_hf_token_world example_request)
       = [CallFeatureExtraction (js ''BAAI/bge-small-en-v1.5'') question,
          CallCollectionFind [JNum 1, JNum 2, JNum 3] 10]
   \<and> frames (fst (POST no_hf_token_world example_request)) = []\<close>
proof -
  have p: "fst (POST no_hf_token_world example_request) = missing_hf_token"
    using POST_no_token [OF example_validated no_hf_token_absent] by simp
  have st: "status (fst (POST no_hf_token_world example_request)) = 400"
    by (simp add: p missing_hf_token_body)
  have bd: \<open>body (fst (POST no_hf_token_world example_request))
       = Json (js ''{"error":"Missing HF_TOKEN in environment."}'')\<close>
    by (simp add: p missing_hf_token_body)
  have tr: "snd (POST no_hf_token_world example_request)
       = [CallFeatureExtraction (js ''BAAI/bge-small-en-v1.5'') question,
          CallCollectionFind [JNum 1, JNum 2, JNum 3] 10]"
    using POST_no_token_calls [OF example_validated no_hf_token_absent]
    by (simp add: no_hf_token_embedding)
  have nc: "filter is_groq_call (snd (POST no_hf_token_world example_request)) = []"
    by (simp add: tr)
  have fr: "frames (fst (POST no_hf_token_world example_request)) = []"
    by (simp add: p missing_hf_token_body frames_def)
  show ?thesis
    by (intro conjI)
       (fact no_hf_token_key no_hf_token_absent example_validated no_hf_token_groq st bd nc
          tr fr)+
qed

text \<open>
  Claim C8, as the handler has it, for a validated request. Without \<open>HF_TOKEN\<close> the
  response is the 400 error, whatever the Groq key is: the calls of the handler are the
  embedding call and the similarity search (when the embedding is not empty) and nothing
  else, so no generation is attempted, neither Tier 1 nor any Tier 2 model, and no frame
  is written. With \<open>HF_TOKEN\<close> the response has status 200, the generation calls are those
  of the two tiers and the frames are those of the generated text. If then the Groq key is
  missing, Tier 1 is skipped without a call: the generated text and the generation calls
  are those of the Tier 2 fallback, made after the embedding call and the similarity
  search, and the frames of the response are the slices of the Tier 2 text, or the apology
  when that text is empty.
\<close>

theorem C8_credentials:
  fixes w :: "'n world"
  assumes "validated w req q"
  shows
    \<open>(\<not> env_truthy (HF_TOKEN w) \<longrightarrow>
        status (fst (POST w req)) = 400
        \<and> body (fst (POST w req)) = Json (js ''{"error":"Missing HF_TOKEN in environment."}'')
        \<and> filter is_groq_call (snd (POST w req)) = []
        \<and> filter is_generation_call (snd (POST w req)) = []
        \<and> snd (POST w req)
            = [CallFeatureExtraction (js ''BAAI/bge-small-en-v1.5'') q]
              @ (if fst (embedding_step w q) = [] then []
                 else [CallCollectionFind (fst (embedding_step w q)) 10])
        \<and> frames (fst (POST w req)) = [])
     \<and> (env_truthy (HF_TOKEN w) \<longrightarrow>
          status (fst (POST w req)) = 200
          \<and> filter is_generation_call (snd (POST w req))
              = snd (generate w (handler_messages w req q) (handler_prompt w req q))
          \<and> frames (fst (POST w req))
              = (if generated_text_of w req q = [] then [encode (formatted apology)]
                 else map (\<lambda>k. encode (formatted (nth_slice (generated_text_of w req q) k)))
                        [0..<slice_count (generated_text_of w req q)]))
     \<and> (env_truthy (HF_TOKEN w) \<and> \<not> env_truthy (GROQ_API_KEY w) \<longrightarrow>
          filter is_groq_call (snd (POST w req)) = []
          \<and> generated_text_of w req q = fst (generateWithHF w (handler_prompt w req q))
          \<and> snd (generate w (handler_messages w req q) (handler_prompt w req q))
              = snd (generateWithHF w (handler_prompt w req q))
          \<and> filter is_generation_call (snd (POST w req))
              = snd (generateWithHF w (handler_prompt w req q))
          \<and> snd (POST w req)
              = [CallFeatureExtraction (js ''BAAI/bge-small-en-v1.5'') q]
                @ (if fst (embedding_step w q) = [] then []
                   else [CallCollectionFind (fst (embedding_step w q)) 10])
                @ snd (generateWithHF w (handler_prompt w req q))
          \<and> frames (fst (POST w req))
              = (if fst (generateWithHF w (handler_prompt w req q)) = []
                 then [encode (formatted apology)]
                 else map (\<lambda>k. encode (formatted
                            (nth_slice (fst (generateWithHF w (handler_prompt w req q))) k)))
                        [0..<slice_count (fst (generateWithHF w (handler_prompt w req q)))]))\<close>
proof (intro conjI impI)
  assume no: "\<not> env_truthy (HF_TOKEN w)"
  have p: "fst (POST w req) = missing_hf_token"
    using POST_no_token [OF assms no] by simp
  note tr = POST_no_token_calls [OF assms no]
  show "status (fst (POST w req)) = 400"
    by (simp add: p missing_hf_token_body)
  show \<open>body (fst (POST w req)) = Json (js ''{"error":"Missing HF_TOKEN in environment."}'')\<close>
    by (simp add: p missing_hf_token_body)
  show "filter is_groq_call (snd (POST w req)) = []"
    by (simp add: tr)
  show "filter is_generation_call (snd (POST w req)) = []"
    by (simp add: tr)
  show "snd (POST w req)
            = [CallFeatureExtraction (js ''BAAI/bge-small-en-v1.5'') q]
              @ (if fst (embedding_step w q) = [] then []
                 else [CallCollectionFind (fst (embedding_step w q)) 10])"
    by (rule tr)
  show "frames (fst (POST w req)) = []"
    by (simp add: p missing_hf_token_body frames_def)
next
  assume t: "env_truthy (HF_TOKEN w)"
  with assms show "status (fst (POST w req)) = 200"
    by (simp add: POST_status_validated)
  show "filter is_generation_call (snd (POST w req))
              = snd (generate w (handler_messages w req q) (handler_prompt w req q))"
    using assms t by (rule POST_generation_calls)
  show "frames (fst (POST w req))
              = (if generated_text_of w req q = [] then [encode (formatted apology)]
                 else map (\<lambda>k. encode (formatted (nth_slice (generated_text_of w req q) k)))
                        [0..<slice_count (generated_text_of w req q)])"
    using frames_stream [OF assms t] by (simp add: Let_def)
next
  assume a: "env_truthy (HF_TOKEN w) \<and> \<not> env_truthy (GROQ_API_KEY w)"
  then have t: "env_truthy (HF_TOKEN w)" by simp
  from a have g: "generate w (handler_messages w req q) (handler_prompt w req q)
                = generateWithHF w (handler_prompt w req q)"
    by (simp add: generate_no_key)
  have gt: "generated_text_of w req q = fst (generateWithHF w (handler_prompt w req q))"
    by (simp add: generated_text_of_def g)
  note tr = POST_token_calls [OF assms t]
  show "filter is_groq_call (snd (POST w req)) = []"
    by (simp add: tr g generateWithHF_not_groq)
  show "generated_text_of w req q = fst (generateWithHF w (handler_prompt w req q))"
    by (rule gt)
  show "snd (generate w (handler_messages w req q) (handler_prompt w req q))
              = snd (generateWithHF w (handler_prompt w req q))"
    by (simp add: g)
  show "filter is_generation_call (snd (POST w req))
              = snd (generateWithHF w (handler_prompt w req q))"
    using POST_generation_calls [OF assms t] by (simp only: g)
  show "snd (POST w req)
              = [CallFeatureExtraction (js ''BAAI/bge-small-en-v1.5'') q]
                @ (if fst (embedding_step w q) = [] then []
                   else [CallCollectionFind (fst (embedding_step w q)) 10])
                @ snd (generateWithHF w (handler_prompt w req q))"
    using tr by (simp only: g)
  show "frames (fst (POST w req))
              = (if fst (generateWithHF w (handler_prompt w req q)) = []
                 then [encode (formatted apology)]
                 else map (\<lambda>k. encode (formatted
                            (nth_slice (fst (generateWithHF w (handler_prompt w req q))) k)))
                        [0..<slice_count (fst (generateWithHF w (handler_prompt w req q)))])"
    using frames_stream [OF assms t] by (simp add: Let_def gt)
qed

lemma third_model_token: "env_truthy (HF_TOKEN third_model_world)"
  by (simp add: third_model_world_def no_groq_world_def example_world_def env_truthy_def
        truthy_def js_def)

lemma third_model_key: "\<not> env_truthy (GROQ_API_KEY third_model_world)"
  by (simp add: third_model_world_def no_groq_world_def env_truthy_def)

lemma third_model_embedding:
  "fst (embedding_step third_model_world q) = [JNum 1, JNum 2, JNum 3]"
  by (simp add: embedding_step_def getHuggingFaceEmbedding_def third_model_world_def
        no_groq_world_def example_world_def)

lemma formatted_Verstappen:
  "encode (formatted (js ''Verstappen''))
   = bytes ''0:'' @ [0x22] @ bytes ''Verstappen'' @ [0x22, 0x0A]"
  by (simp add: encode_formatted escape_concat escape_unit_def js_def bytes_def quote_def
        newline_def utf8_def is_high_surrogate_def is_low_surrogate_def)

text \<open>
  The theorem without the Hugging Face token, where the handler stops after the
  similarity search, and without the Groq key where the third Tier 2 model answers and
  its text is the one frame of the response.
\<close>

theorem C8_credentials_witness:
  \<open>validated no_hf_token_world example_request question
   \<and> \<not> env_truthy (HF_TOKEN no_hf_token_world)
   \<and> status (fst (POST no_hf_token_world example_request)) = 400
   \<and> filter is_generation_call (snd (POST no_hf_token_world example_request)) = []
   \<and> snd (POST no_hf_token_world example_request)
       = [CallFeatureExtraction (js ''BAAI/bge-small-en-v1.5'') question,
          CallCollectionFind [JNum 1, JNum 2, JNum 3] 10]
   \<and> validated third_model_world example_request question
   \<and> env_truthy (HF_TOKEN third_model_world)
   \<and> \<not> env_truthy (GROQ_API_KEY third_model_world)
   \<and> status (fst (POST third_model_world example_request)) = 200
   \<and> generated_text_of third_model_world example_request question = js ''Verstappen''
   \<and> snd (POST third_model_world example_request)
       = [CallFeatureExtraction (js ''BAAI/bge-small-en-v1.5'') question,
          CallCollectionFind [JNum 1, JNum 2, JNum 3] 10,
          CallTextGeneration (js ''bigscience/bloom-560m'')
            (handler_prompt third_model_world example_request question),
          CallTextGeneration (js ''gpt2'')
            (handler_prompt third_model_world example_request question),
          CallTextGeneration (js ''distilgpt2'')
            (handler_prompt third_model_world example_request question)]
   \<and> frames (fst (POST third_model_world example_request))
       = [bytes ''0:'' @ [0x22] @ bytes ''Verstappen'' @ [0x22, 0x0A]]\<close>
proof -
  note none = C8_credentials [OF example_validated [of no_hf_token_world]]
  note third = C8_credentials [OF example_validated [of third_model_world]]
  from none no_hf_token_absent
  have c1: "status (fst (POST no_hf_token_world example_request)) = 400" by blast
  from none no_hf_token_absent
  have c1a: "filter is_generation_call (snd (POST no_hf_token_world example_request)) = []"
    by blast
  from none no_hf_token_absent
  have "snd (POST no_hf_token_world example_request)
            = [CallFeatureExtraction (js ''BAAI/bge-small-en-v1.5'') question]
              @ (if fst (embedding_step no_hf_token_world question) = [] then []
                 else [CallCollectionFind (fst (embedding_step no_hf_token_world question)) 10])"
    by blast
  then have c1b: "snd (POST no_hf_token_world example_request)
       = [CallFeatureExtraction (js ''BAAI/bge-small-en-v1.5'') question,
          CallCollectionFind [JNum 1, JNum 2, JNum 3] 10]"
    by (simp add: no_hf_token_embedding)
  from third third_model_token
  have c2: "status (fst (POST third_model_world example_request)) = 200" by blast
  from third third_model_token third_model_key
  have "generated_text_of third_model_world example_request question
        = fst (generateWithHF third_model_world
            (handler_prompt third_model_world example_request question))" by blast
  then have c3: "generated_text_of third_model_world example_request question
        = js ''Verstappen''"
    by (simp add: third_model_generate)
  from third third_model_token third_model_key
  have "snd (POST third_model_world example_request)
              = [CallFeatureExtraction (js ''BAAI/bge-small-en-v1.5'') question]
                @ (if fst (embedding_step third_model_world question) = [] then []
                   else [CallCollectionFind (fst (embedding_step third_model_world question)) 10])
                @ snd (generateWithHF third_model_world
                         (handler_prompt third_model_world example_request question))"
    by blast
  then have c4: "snd (POST third_model_world example_request)
       = [CallFeatureExtraction (js ''BAAI/bge-small-en-v1.5'') question,
          CallCollectionFind [JNum 1, JNum 2, JNum 3] 10,
          CallTextGeneration (js ''bigscience/bloom-560m'')
            (handler_prompt third_model_world example_request question),
          CallTextGeneration (js ''gpt2'')
            (handler_prompt third_model_world example_request question),
          CallTextGeneration (js ''distilgpt2'')
            (handler_prompt third_model_world example_request question)]"
    by (simp add: third_model_embedding third_model_generate hf_attempts_list)
  have short: "js ''Verstappen'' \<noteq> []" "length (js ''Verstappen'') \<le> 40"
    by (simp_all add: js_def)
  from third third_model_token third_model_key
  have "frames (fst (POST third_model_world example_request))
              = (if fst (generateWithHF third_model_world
                           (handler_prompt third_model_world example_request question)) = []
                 then [encode (formatted apology)]
                 else map (\<lambda>k. encode (formatted
                            (nth_slice (fst (generateWithHF third_model_world
                               (handler_prompt third_model_world example_request question))) k)))
                        [0..<slice_count (fst (generateWithHF third_model_world
                               (handler_prompt third_model_world example_request question)))])"
    by blast
  then have c5: "frames (fst (POST third_model_world example_request))
       = [bytes ''0:'' @ [0x22] @ bytes ''Verstappen'' @ [0x22, 0x0A]]"
    by (simp only: third_model_generate fst_conv short(1) if_False slices_short [OF short]
          formatted_Verstappen)
  show ?thesis
    by (intro conjI)
       (fact example_validated no_hf_token_absent c1 c1a c1b third_model_token
          third_model_key c2 c3 c4 c5)+
qed

lemma system_count_groqMessages:
  "system_count (groqMessages w sp ms) = Suc (length (filter (\<lambda>m. role m = System) ms))"
  by (simp add: system_count_def groqMessages_def filter_map comp_def)

lemma sent_messages: "map (\<lambda>m. \<lparr>role = role m, content = content m\<rparr>) msgs = msgs"
  for msgs :: "ProviderMessage list"
  by (induction msgs) simp_all

lemma generateWithGroq_call:
  "env_truthy (GROQ_API_KEY w) \<Longrightarrow> snd (generateWithGroq w msgs) = [CallGroq msgs]"
  by (simp add: generateWithGroq_def Let_def sent_messages)

lemma generate_groq_call:
  "env_truthy (GROQ_API_KEY w) \<Longrightarrow>
   filter is_groq_call (snd (generate w msgs p)) = [CallGroq msgs]"
  by (simp add: generate_parts case_prod_beta generateWithGroq_call generateWithHF_not_groq)

lemma POST_groq_call:
  "validated w req q \<Longrightarrow> env_truthy (HF_TOKEN w) \<Longrightarrow> env_truthy (GROQ_API_KEY w) \<Longrightarrow>
   filter is_groq_call (snd (POST w req)) = [CallGroq (handler_messages w req q)]"
  by (simp add: POST_stream embedding_step_calls retrieval_step_calls generate_groq_call)

lemma systemPrompt_parts:
  "\<exists>pre mid post. \<forall>ctx q. systemPrompt ctx q = pre @ ctx @ mid @ q @ post"
proof (intro exI allI)
  fix ctx q
  show "systemPrompt ctx q
        = (persona @ [newline] @ js ''    ---------'' @ [newline]
           @ js ''    START CONTEXT'' @ [newline] @ js ''    '')
          @ ctx
          @ ([newline] @ js ''    END CONTEXT'' @ [newline] @ js ''    ---------''
             @ [newline] @ js ''    QUESTION: '')
          @ q
          @ ([newline] @ js ''    ---------'' @ [newline] @ js ''    '')"
    by (simp add: systemPrompt_def)
qed

lemma system_validated: "validated w system_request question"
  by (simp add: validated_def latestMessage_def system_request_def trim_question truthy_def
        question_nonempty)

text \<open>
  Claim C9 says the assembled prompt has no system message but the synthesized one. A
  validated conversation that itself opens with a system message is assembled into a
  prompt with two system messages.
\<close>

theorem C9_client_system_message_kept:
  "validated example_world system_request question
   \<and> map role (handler_messages example_world system_request question)
       = [System, System, User]
   \<and> system_count (handler_messages example_world system_request question) = 2"
proof -
  have r: "map role (handler_messages example_world system_request question)
       = [System, System, User]"
    by (simp add: handler_messages_def groqMessages_def system_request_def)
  have c: "system_count (handler_messages example_world system_request question) = 2"
    by (simp add: handler_messages_def system_count_groqMessages system_request_def)
  show ?thesis
    by (intro conjI) (fact system_validated r c)+
qed

text \<open>
  Claim C9, as the handler has it. The assembled prompt begins with the synthesized system
  message and continues with one message for each original message, in order and with its
  role; a string content is unchanged, an absent content stays undefined, and any other
  content is replaced by its \<open>JSON.stringify\<close> form. The prompt has one system message more
  than the conversation, so exactly one if and only if the conversation has none. It is
  this list the handler sends to Groq, and the system prompt holds the context and the
  question between fixed texts.
\<close>

theorem C9_assembled_prompt:
  fixes w :: "'n world"
  shows
    "hd (groqMessages w sp ms) = \<lparr>role = System, content = Some sp\<rparr>
     \<and> length (groqMessages w sp ms) = Suc (length ms)
     \<and> map role (tl (groqMessages w sp ms)) = map role ms
     \<and> map content (tl (groqMessages w sp ms)) = map (\<lambda>m. coerce_content w (content m)) ms
     \<and> coerce_content w (JStr s) = Some s
     \<and> coerce_content w JUndefined = None
     \<and> (v \<noteq> JUndefined \<and> (\<forall>t. v \<noteq> JStr t)
          \<longrightarrow> coerce_content w v = Some (JSON_stringify w v))
     \<and> system_count (groqMessages w sp ms)
         = Suc (length (filter (\<lambda>m. role m = System) ms))
     \<and> (system_count (groqMessages w sp ms) = 1 \<longleftrightarrow> (\<forall>m \<in> set ms. role m \<noteq> System))
     \<and> (validated w req q \<and> env_truthy (HF_TOKEN w) \<and> env_truthy (GROQ_API_KEY w)
          \<longrightarrow> filter is_groq_call (snd (POST w req))
              = [CallGroq (groqMessages w (systemPrompt (handler_context w q) q)
                            (messages_of req))])
     \<and> (\<exists>pre mid post. \<forall>ctx q. systemPrompt ctx q = pre @ ctx @ mid @ q @ post)"
proof (intro conjI)
  show "hd (groqMessages w sp ms) = \<lparr>role = System, content = Some sp\<rparr>"
    by (simp add: groqMessages_def)
  show "length (groqMessages w sp ms) = Suc (length ms)"
    by (simp add: groqMessages_def)
  show "map role (tl (groqMessages w sp ms)) = map role ms"
    by (simp add: groqMessages_def comp_def)
  show "map content (tl (groqMessages w sp ms)) = map (\<lambda>m. coerce_content w (content m)) ms"
    by (simp add: groqMessages_def comp_def)
  show "coerce_content w (JStr s) = Some s"
    by (simp add: coerce_content_def)
  show "coerce_content w JUndefined = None"
    by (simp add: coerce_content_def)
  show "v \<noteq> JUndefined \<and> (\<forall>t. v \<noteq> JStr t)
          \<longrightarrow> coerce_content w v = Some (JSON_stringify w v)"
    by (cases v) (simp_all add: coerce_content_def)
  show "system_count (groqMessages w sp ms)
         = Suc (length (filter (\<lambda>m. role m = System) ms))"
    by (rule system_count_groqMessages)
  show "system_count (groqMessages w sp ms) = 1 \<longleftrightarrow> (\<forall>m \<in> set ms. role m \<noteq> System)"
    by (simp add: system_count_groqMessages filter_empty_conv)
  show "validated w req q \<and> env_truthy (HF_TOKEN w) \<and> env_truthy (GROQ_API_KEY w)
          \<longrightarrow> filter is_groq_call (snd (POST w req))
              = [CallGroq (groqMessages w (systemPrompt (handler_context w q) q)
                            (messages_of req))]"
    using POST_groq_call [of w req q] by (simp add: handler_messages_def)
  show "\<exists>pre mid post. \<forall>ctx q. systemPrompt ctx q = pre @ ctx @ mid @ q @ post"
    by (rule systemPrompt_parts)
qed

lemma example_key: "env_truthy (GROQ_API_KEY example_world)"
  by (simp add: example_world_def env_truthy_def truthy_def js_def)

text \<open>
  The theorem at the conversation of one user question.
\<close>

theorem C9_assembled_prompt_witness:
  "JNull \<noteq> (JUndefined :: nat jsval)
   \<and> coerce_content example_world JNull = Some (js ''[...]'')
   \<and> role \<lparr>role = User, content = JStr question\<rparr> \<noteq> System
   \<and> system_count (groqMessages example_world [] [\<lparr>role = User, content = JStr question\<rparr>])
       = 1
   \<and> validated example_world example_request question
   \<and> env_truthy (HF_TOKEN example_world)
   \<and> env_truthy (GROQ_API_KEY example_world)
   \<and> filter is_groq_call (snd (POST example_world example_request))
       = [CallGroq [\<lparr>role = System,
                     content = Some (systemPrompt (js ''[...]'') question)\<rparr>,
                    \<lparr>role = User, content = Some question\<rparr>]]"
proof -
  note fact = C9_assembled_prompt
    [of example_world "[]" "[\<lparr>role = User, content = JStr question\<rparr>]" _ JNull
        example_request question]
  have h1: "JNull \<noteq> (JUndefined :: nat jsval)" by simp
  have h2: "\<forall>t. (JNull :: nat jsval) \<noteq> JStr t" by simp
  from fact h1 h2 have "coerce_content example_world JNull
      = Some (JSON_stringify example_world JNull)" by blast
  then have c1: "coerce_content example_world JNull = Some (js ''[...]'')"
    by (simp add: example_world_def)
  have h3: "role \<lparr>role = User, content = JStr question\<rparr> \<noteq> System" by simp
  then have "\<forall>m \<in> set [\<lparr>role = User, content = JStr question\<rparr> :: nat ChatMessage].
               role m \<noteq> System"
    by simp
  with fact have c2:
    "system_count (groqMessages example_world [] [\<lparr>role = User, content = JStr question\<rparr>])
       = 1" by blast
  have "fst (retrieval_step example_world [JNum 1, JNum 2, JNum 3]) = js ''[...]''"
    by (simp add: retrieval_step_def example_world_def)
  then have ctx: "handler_context example_world question = js ''[...]''"
    by (simp only: handler_context_def example_embedding)
  from fact example_validated example_token example_key
  have "filter is_groq_call (snd (POST example_world example_request))
        = [CallGroq (groqMessages example_world
             (systemPrompt (handler_context example_world question) question)
             (messages_of example_request))]"
    by blast
  then have c3: "filter is_groq_call (snd (POST example_world example_request))
       = [CallGroq [\<lparr>role = System,
                     content = Some (systemPrompt (js ''[...]'') question)\<rparr>,
                    \<lparr>role = User, content = Some question\<rparr>]]"
    by (simp add: ctx groqMessages_def example_request_def coerce_content_def)
  show ?thesis
    by (intro conjI) (fact h1 c1 h3 c2 example_validated example_token example_key c3)+
qed

end
